theory Spec2Isabelle
  imports Complex_Main "HOL-Library.Word"
begin

section \<open>Common data\<close>

text \<open>
  Exceptions of the Python code, as values. \<open>IndexError\<close> is what numpy raises for
  \<^verbatim>\<open>a[:, 0]\<close> on a one-dimensional array and for an index out of range,
  \<open>KeyError\<close> a missing dictionary key, \<open>AssertionError\<close> a failed \<^verbatim>\<open>assert\<close>,
  \<open>ZeroDivisionError\<close> integer \<^verbatim>\<open>%\<close> or \<^verbatim>\<open>//\<close> by zero and \<open>RuntimeError\<close> what torch
  raises (an index tensor on another device than its input, \<^verbatim>\<open>argmax\<close> of an empty tensor).
\<close>

datatype error = IndexError | KeyError string | AssertionError | ZeroDivisionError | RuntimeError

type_synonym uint8 = "8 word"

section \<open>selector.py: pairs and triplets of a batch\<close>

text \<open>
  \<^verbatim>\<open>list(combinations(range(n), 2))\<close>: the pairs \<open>(i, j)\<close> with \<open>i < j < n\<close> in
  lexicographic order.
\<close>

definition combinations2 :: "nat \<Rightarrow> (nat \<times> nat) list" where
  "combinations2 n = concat (map (\<lambda>i. map (\<lambda>j. (i, j)) [Suc i ..< n]) [0 ..< n])"

text \<open>\<^verbatim>\<open>.astype(np.uint8)\<close> on the array of index pairs: every entry is cast to 8 bits.\<close>

definition astype_uint8 :: "(nat \<times> nat) list \<Rightarrow> (uint8 \<times> uint8) list" where
  "astype_uint8 ps = map (\<lambda>(i, j). (word_of_nat i, word_of_nat j)) ps"

text \<open>
  \<^verbatim>\<open>get_all_pairs(labels)\<close>. The label vector is one-dimensional, so \<^verbatim>\<open>ravel\<close> is the
  identity. With fewer than two labels \<^verbatim>\<open>combinations\<close> is empty, \<^verbatim>\<open>np.array([])\<close> has one
  dimension and \<^verbatim>\<open>all_pairs[:, 0]\<close> raises. Otherwise the labels are read at the cast
  indices (an index beyond the vector raises), the rows whose two labels agree are the
  positive pairs and the rows whose labels differ the negative pairs; a boolean mask followed
  by \<^verbatim>\<open>nonzero\<close> and row selection keeps the rows in their order, which is \<open>filter\<close>.
\<close>

definition get_all_pairs ::
  "int list \<Rightarrow> error + ((uint8 \<times> uint8) list \<times> (uint8 \<times> uint8) list)" where
  "get_all_pairs labels_flat =
     (let all_pairs = astype_uint8 (combinations2 (length labels_flat)) in
      if all_pairs = [] then Inl IndexError
      else if \<exists>(a, b) \<in> set all_pairs.
                length labels_flat \<le> unat a \<or> length labels_flat \<le> unat b
      then Inl IndexError
      else
        let pos_pairs = filter (\<lambda>(a, b). labels_flat ! unat a = labels_flat ! unat b) all_pairs;
            neg_pairs = filter (\<lambda>(a, b). labels_flat ! unat a \<noteq> labels_flat ! unat b) all_pairs
        in Inr (pos_pairs, neg_pairs))"

text \<open>
  \<^verbatim>\<open>get_all_triplets(labels)\<close>: the nested loop over positive and negative pairs, joined
  on the first component. An exception of \<^verbatim>\<open>get_all_pairs\<close> propagates.
\<close>

definition get_all_triplets :: "int list \<Rightarrow> error + (uint8 \<times> uint8 \<times> uint8) list" where
  "get_all_triplets labels =
     (case get_all_pairs labels of
        Inl e \<Rightarrow> Inl e
      | Inr (pos_pairs, neg_pairs) \<Rightarrow>
          Inr (concat (map (\<lambda>pos.
                 concat (map (\<lambda>neg.
                   if fst pos = fst neg then [(fst pos, snd pos, snd neg)] else [])
                   neg_pairs))
                 pos_pairs)))"

text \<open>
  \<^verbatim>\<open>np.where(labels == c)[0]\<close> and \<^verbatim>\<open>np.where(labels != c)[0]\<close>: the positions of a
  one-dimensional label vector that hold, or do not hold, the label \<open>c\<close>, ascending.
\<close>

definition where_eq :: "int list \<Rightarrow> int \<Rightarrow> nat list" where
  "where_eq labels c = filter (\<lambda>i. labels ! i = c) [0 ..< length labels]"

definition where_ne :: "int list \<Rightarrow> int \<Rightarrow> nat list" where
  "where_ne labels c = filter (\<lambda>i. labels ! i \<noteq> c) [0 ..< length labels]"

text \<open>
  \<^verbatim>\<open>torch.argmax\<close> and \<^verbatim>\<open>torch.argmin\<close> of a one-dimensional tensor: the position of the
  first greatest (least) entry; an empty tensor raises. Distances are the entries of the
  matrix that \<^verbatim>\<open>emb_pairwise_dist\<close> returns; that function is not part of the sources, so
  the matrix is a parameter \<open>dist_mat\<close>, read at a row and a column, with entries in a
  linear order (a distance matrix without NaN).
\<close>

definition torch_argmax :: "'d::linorder list \<Rightarrow> error + nat" where
  "torch_argmax xs =
     (if xs = [] then Inl RuntimeError
      else Inr (hd (filter (\<lambda>i. xs ! i = Max (set xs)) [0 ..< length xs])))"

definition torch_argmin :: "'d::linorder list \<Rightarrow> error + nat" where
  "torch_argmin xs =
     (if xs = [] then Inl RuntimeError
      else Inr (hd (filter (\<lambda>i. xs ! i = Min (set xs)) [0 ..< length xs])))"

text \<open>
  The body of the loop over the anchors of one class in \<^verbatim>\<open>get_batch_hard_triplets\<close>.
  An empty list of pairs becomes a one-dimensional array, on which \<^verbatim>\<open>[:, 0]\<close> raises.
\<close>

definition anchor_triplet ::
  "(nat \<Rightarrow> nat \<Rightarrow> 'd::linorder) \<Rightarrow> nat list \<Rightarrow> nat list \<Rightarrow> nat \<Rightarrow> error + (nat \<times> nat \<times> nat)" where
  "anchor_triplet dist_mat c_idx other_idx an =
     (let pos_pairs = map (\<lambda>p. (an, p)) (filter (\<lambda>p. p \<noteq> an) c_idx);
          neg_pairs = map (\<lambda>n. (an, n)) other_idx
      in if pos_pairs = [] \<or> neg_pairs = [] then Inl IndexError
         else
           let pos_pair_dist = map (\<lambda>(a, p). dist_mat a p) pos_pairs;
               neg_pair_dist = map (\<lambda>(a, n). dist_mat a n) neg_pairs
           in case torch_argmax pos_pair_dist of
                Inl e \<Rightarrow> Inl e
              | Inr hardest_pos \<Rightarrow>
                  (case torch_argmin neg_pair_dist of
                     Inl e \<Rightarrow> Inl e
                   | Inr hardest_neg \<Rightarrow>
                       Inr (an, snd (pos_pairs ! hardest_pos), snd (neg_pairs ! hardest_neg))))"

fun anchors_loop ::
  "(nat \<Rightarrow> nat \<Rightarrow> 'd::linorder) \<Rightarrow> nat list \<Rightarrow> nat list \<Rightarrow> nat list \<Rightarrow> error + (nat \<times> nat \<times> nat) list" where
  "anchors_loop dist_mat c_idx other_idx [] = Inr []"
| "anchors_loop dist_mat c_idx other_idx (an # rest) =
     (case anchor_triplet dist_mat c_idx other_idx an of
        Inl e \<Rightarrow> Inl e
      | Inr t \<Rightarrow>
          (case anchors_loop dist_mat c_idx other_idx rest of
             Inl e \<Rightarrow> Inl e
           | Inr ts \<Rightarrow> Inr (t # ts)))"

text \<open>One iteration of the loop over the classes: the two \<^verbatim>\<open>continue\<close> guards, then the anchors.\<close>

definition class_triplets ::
  "(nat \<Rightarrow> nat \<Rightarrow> 'd::linorder) \<Rightarrow> int list \<Rightarrow> int \<Rightarrow> error + (nat \<times> nat \<times> nat) list" where
  "class_triplets dist_mat labels c =
     (let c_idx = where_eq labels c in
      if length c_idx < 2 then Inr []
      else
        let other_idx = where_ne labels c in
        if length other_idx < 1 then Inr []
        else anchors_loop dist_mat c_idx other_idx c_idx)"

text \<open>
  \<^verbatim>\<open>get_batch_hard_triplets\<close>. Python iterates \<^verbatim>\<open>set(labels.ravel())\<close> in an order it does
  not specify: \<open>unique_class\<close> is that order, a list of the distinct labels of the batch.
\<close>

fun get_batch_hard_triplets ::
  "(nat \<Rightarrow> nat \<Rightarrow> 'd::linorder) \<Rightarrow> int list \<Rightarrow> int list \<Rightarrow> error + (nat \<times> nat \<times> nat) list" where
  "get_batch_hard_triplets dist_mat labels [] = Inr []"
| "get_batch_hard_triplets dist_mat labels (c # unique_class) =
     (case class_triplets dist_mat labels c of
        Inl e \<Rightarrow> Inl e
      | Inr ts \<Rightarrow>
          (case get_batch_hard_triplets dist_mat labels unique_class of
             Inl e \<Rightarrow> Inl e
           | Inr rest \<Rightarrow> Inr (ts @ rest)))"

text \<open>
  Notation for the statements about \<^verbatim>\<open>get_batch_hard_triplets\<close>: in the triplet
  \<open>(a, p, n)\<close>, \<open>p\<close> is a member of \<open>same\<close> other than the anchor at the greatest
  distance from it, and \<open>n\<close> a member of \<open>other\<close> at the least distance.
\<close>

abbreviation hardest ::
  "(nat \<Rightarrow> nat \<Rightarrow> 'd::linorder) \<Rightarrow> nat set \<Rightarrow> nat set \<Rightarrow> nat \<times> nat \<times> nat \<Rightarrow> bool" where
  "hardest dist_mat same other t \<equiv>
     (case t of (a, p, n) \<Rightarrow>
        p \<in> same - {a} \<and> n \<in> other \<and>
        (\<forall>p' \<in> same - {a}. dist_mat a p' \<le> dist_mat a p) \<and>
        (\<forall>n' \<in> other. dist_mat a n \<le> dist_mat a n'))"

text \<open>
  Notation: the anchors a class contributes, that is its members when it passes the two
  guards of the loop (two members at least, some example outside it) and none otherwise.
\<close>

abbreviation taking_part :: "int list \<Rightarrow> int \<Rightarrow> nat list" where
  "taking_part labels c \<equiv>
     (if 2 \<le> length (where_eq labels c) \<and> where_ne labels c \<noteq> [] then where_eq labels c else [])"

subsection \<open>PairSelector.select\<close>

text \<open>
  A tensor is its rows and the device that holds it. \<^verbatim>\<open>torch.tensor\<close> of a numpy array is
  on the CPU, \<^verbatim>\<open>.to\<close> moves a tensor, \<^verbatim>\<open>index_select\<close> along dimension 0 needs its index on
  the device of its input and every index within the rows, and \<^verbatim>\<open>cat\<close> along dimension 0
  appends the rows.
\<close>

datatype device = CPU | CUDA

record 'e tensor =
  rows :: "'e list"
  device :: device

definition torch_tensor :: "'e list \<Rightarrow> 'e tensor" where
  "torch_tensor xs = \<lparr>rows = xs, device = CPU\<rparr>"

definition to_device :: "'e tensor \<Rightarrow> device \<Rightarrow> 'e tensor" where
  "to_device t d = t\<lparr>device := d\<rparr>"

definition index_select :: "'e tensor \<Rightarrow> nat tensor \<Rightarrow> error + 'e tensor" where
  "index_select t index =
     (if device index \<noteq> device t then Inl RuntimeError
      else if \<exists>i \<in> set (rows index). length (rows t) \<le> i then Inl IndexError
      else Inr \<lparr>rows = map (\<lambda>i. rows t ! i) (rows index), device = device t\<rparr>)"

definition torch_cat :: "'e tensor \<Rightarrow> 'e tensor \<Rightarrow> error + 'e tensor" where
  "torch_cat a b =
     (if device a \<noteq> device b then Inl RuntimeError
      else Inr \<lparr>rows = rows a @ rows b, device = device a\<rparr>)"

text \<open>
  \<^verbatim>\<open>PairSelector.select\<close>. \<open>get_pairs\<close> is the method of the subclass; its index arrays are
  read after \<^verbatim>\<open>.long()\<close>, as naturals. The four \<^verbatim>\<open>index_select\<close> calls are written as in
  the source: the second one moves its result, not its index, to the device of the
  embeddings.
\<close>

definition PairSelector_select ::
  "('e tensor \<Rightarrow> int list \<Rightarrow> error + ((nat \<times> nat) list \<times> (nat \<times> nat) list)) \<Rightarrow>
   'e tensor \<Rightarrow> int list \<Rightarrow> error + (('e tensor \<times> 'e tensor) \<times> real tensor)" where
  "PairSelector_select get_pairs embeddings labels =
     (case get_pairs embeddings labels of
        Inl e \<Rightarrow> Inl e
      | Inr (pos_pairs, neg_pairs) \<Rightarrow>
     (case index_select embeddings
             (to_device (torch_tensor (map fst pos_pairs)) (device embeddings)) of
        Inl e \<Rightarrow> Inl e
      | Inr first_pos \<Rightarrow>
     (case index_select embeddings (torch_tensor (map fst neg_pairs)) of
        Inl e \<Rightarrow> Inl e
      | Inr first_neg \<Rightarrow>
     (case torch_cat first_pos (to_device first_neg (device embeddings)) of
        Inl e \<Rightarrow> Inl e
      | Inr first \<Rightarrow>
     (case index_select embeddings
             (to_device (torch_tensor (map snd pos_pairs)) (device embeddings)) of
        Inl e \<Rightarrow> Inl e
      | Inr second_pos \<Rightarrow>
     (case index_select embeddings
             (to_device (torch_tensor (map snd neg_pairs)) (device embeddings)) of
        Inl e \<Rightarrow> Inl e
      | Inr second_neg \<Rightarrow>
     (case torch_cat second_pos second_neg of
        Inl e \<Rightarrow> Inl e
      | Inr second \<Rightarrow>
     (case torch_cat (torch_tensor (replicate (length pos_pairs) 1))
                     (torch_tensor (replicate (length neg_pairs) 0)) of
        Inl e \<Rightarrow> Inl e
      | Inr sim \<Rightarrow>
          Inr ((first, second), to_device sim (device embeddings))))))))))"

text \<open>
  An array of \<^verbatim>\<open>uint8\<close> index pairs read as (long) integers, as
  \<^verbatim>\<open>torch.tensor(...).long()\<close> does before the rows are gathered.
\<close>

definition long_pairs :: "(uint8 \<times> uint8) list \<Rightarrow> (nat \<times> nat) list" where
  "long_pairs ps = map (\<lambda>(a, b). (unat a, unat b)) ps"

text \<open>\<^verbatim>\<open>AllPairSelector.get_pairs\<close>: all pairs of the labels, whatever the embeddings.\<close>

definition AllPairSelector_get_pairs ::
  "'e tensor \<Rightarrow> int list \<Rightarrow> error + ((nat \<times> nat) list \<times> (nat \<times> nat) list)" where
  "AllPairSelector_get_pairs embeddings labels =
     (case get_all_pairs labels of
        Inl e \<Rightarrow> Inl e
      | Inr (pos_pairs, neg_pairs) \<Rightarrow>
          Inr (long_pairs pos_pairs, long_pairs neg_pairs))"

section \<open>supervised.py: one training iteration\<close>

text \<open>
  The callback handler, the model, the criterion and the optimizer are not part of the
  sources. They are the fields of an environment: each operation takes the state \<open>'w\<close> of
  everything the iteration can change and returns the new one, and a control dispatch also
  returns its boolean. \<open>'t\<close> is the type of tensors. The payloads and the logs are the
  dictionaries of the source, as association lists read with \<open>map_of\<close>.
\<close>

datatype 't log_value = Tensor 't | Bytes nat

datatype 't event =
    OnBackwardBegin bool
  | Backward 't
  | AfterBackward bool
  | OptimizerStep
  | AfterStep bool
  | ZeroGrad
  | OnBatchEnd "(string \<times> 't log_value) list"

record ('w, 't) learner =
  cb_on_batch_begin :: "(string \<times> 't) list \<Rightarrow> bool \<Rightarrow> 'w \<Rightarrow> (string \<times> 't) list \<times> 'w"
  mixup :: bool
  mixup_transform_data :: "'t \<Rightarrow> 't \<Rightarrow> 'w \<Rightarrow> ('t \<times> 't) \<times> 'w"
  compute_loss :: "'t \<Rightarrow> 't \<Rightarrow> bool \<Rightarrow> 'w \<Rightarrow> 't \<times> 'w"
  cb_after_losses :: "(string \<times> 't) list \<Rightarrow> bool \<Rightarrow> 'w \<Rightarrow> (string \<times> 't) list \<times> 'w"
  cb_on_backward_begin :: "'w \<Rightarrow> bool \<times> 'w"
  loss_backward :: "'t \<Rightarrow> 'w \<Rightarrow> 'w"
  cb_after_backward :: "'w \<Rightarrow> bool \<times> 'w"
  optimizer_step :: "'w \<Rightarrow> 'w"
  cb_after_step :: "'w \<Rightarrow> bool \<times> 'w"
  optimizer_zero_grad :: "'w \<Rightarrow> 'w"
  device_type_is_cuda :: bool
  cuda_memory_allocated :: "'w \<Rightarrow> nat"
  loss_cpu :: "'t \<Rightarrow> 't"
  cb_on_batch_end :: "(string \<times> 't log_value) list \<Rightarrow> 'w \<Rightarrow> 'w"

text \<open>
  \<^verbatim>\<open>SupervisedImageLearner.learn_one_iter\<close>. The result is the final state and the trace of
  what was executed, in order: every control dispatch with the boolean it returned, the
  backward pass, the optimizer step, the clearing of the gradients and the \<^verbatim>\<open>on_batch_end\<close>
  dispatch with its logs. As in the source, the block that builds the logs and dispatches
  \<^verbatim>\<open>on_batch_end\<close> is inside the branch taken when \<^verbatim>\<open>after_backward\<close> returned true.
\<close>

definition learn_one_iter ::
  "('w, 't) learner \<Rightarrow> 't \<Rightarrow> 't \<Rightarrow> 'w \<Rightarrow> error + ('w \<times> 't event list)" where
  "learn_one_iter L images labels w0 =
     (let (data, w1) = cb_on_batch_begin L [(''inputs'', images), (''labels'', labels)] True w0 in
      case map_of data ''inputs'' of
        None \<Rightarrow> Inl (KeyError ''inputs'')
      | Some images1 \<Rightarrow>
     (case map_of data ''labels'' of
        None \<Rightarrow> Inl (KeyError ''labels'')
      | Some labels1 \<Rightarrow>
     (let ((images2, labels2), w2) =
            (if mixup L then mixup_transform_data L images1 labels1 w1
             else ((images1, labels1), w1));
          (l, w3) = compute_loss L images2 labels2 True w2;
          (losses, w4) = cb_after_losses L [(''loss'', l)] True w3
      in case map_of losses ''loss'' of
           None \<Rightarrow> Inl (KeyError ''loss'')
         | Some loss \<Rightarrow>
     (let (b1, w5) = cb_on_backward_begin L w4;
          (w6, tr1) = (if b1 then (loss_backward L loss w5, [OnBackwardBegin b1, Backward loss])
                       else (w5, [OnBackwardBegin b1]));
          (b2, w7) = cb_after_backward L w6
      in if b2 then
           (let w8 = optimizer_step L w7;
                (b3, w9) = cb_after_step L w8;
                (w10, tr3) = (if b3 then (optimizer_zero_grad L w9, [AfterStep b3, ZeroGrad])
                              else (w9, [AfterStep b3]));
                logs = (if device_type_is_cuda L
                        then [(''loss'', Tensor (loss_cpu L loss)),
                              (''allocated_memory'', Bytes (cuda_memory_allocated L w10))]
                        else [(''loss'', Tensor loss)])
            in Inr (cb_on_batch_end L logs w10,
                    tr1 @ [AfterBackward b2, OptimizerStep] @ tr3 @ [OnBatchEnd logs]))
         else Inr (w7, tr1 @ [AfterBackward b2])))))"

text \<open>
  An environment to run the iteration on: callbacks that pass the payloads on unchanged
  and answer the three control dispatches with the given booleans (a callback that
  accumulates gradients answers \<^verbatim>\<open>after_backward\<close> with false between two steps), a loss of
  0, and a state that records what was applied to it: the backward pass adds 10, the
  optimizer step 1, the clearing of the gradients 100 and \<^verbatim>\<open>on_batch_end\<close> 1000.
\<close>

definition example_learner :: "bool \<Rightarrow> bool \<Rightarrow> bool \<Rightarrow> bool \<Rightarrow> (nat, int) learner" where
  "example_learner b1 b2 b3 cuda =
     \<lparr>cb_on_batch_begin = (\<lambda>data train w. (data, w)),
      mixup = False,
      mixup_transform_data = (\<lambda>images labels w. ((images, labels), w)),
      compute_loss = (\<lambda>images labels train w. (0, w)),
      cb_after_losses = (\<lambda>losses train w. (losses, w)),
      cb_on_backward_begin = (\<lambda>w. (b1, w)),
      loss_backward = (\<lambda>loss w. w + 10),
      cb_after_backward = (\<lambda>w. (b2, w)),
      optimizer_step = (\<lambda>w. w + 1),
      cb_after_step = (\<lambda>w. (b3, w)),
      optimizer_zero_grad = (\<lambda>w. w + 100),
      device_type_is_cuda = cuda,
      cuda_memory_allocated = (\<lambda>w. 1024),
      loss_cpu = (\<lambda>loss. loss),
      cb_on_batch_end = (\<lambda>logs w. w + 1000)\<rparr>"

section \<open>regularization.py: penalties added to a loss\<close>

text \<open>
  Losses are scalar tensors, read as reals (rounding is outside the model). The
  regularizer is the callable the callback was built with; the parameters of the model
  are the list \<^verbatim>\<open>self.learner._model.parameters()\<close> yields.
\<close>

record 'p WeightRegularization =
  wr_loss_name :: string
  wr_regularizer :: "'p \<Rightarrow> real"
  wr_lambd :: real

text \<open>The loop \<^verbatim>\<open>reg = 0.0; for p in parameters: reg = reg + regularizer(p.data)\<close>.\<close>

definition weight_reg :: "'p WeightRegularization \<Rightarrow> 'p list \<Rightarrow> real" where
  "weight_reg self parameters = fold (\<lambda>p reg. reg + wr_regularizer self p) parameters 0"

definition WeightRegularization_after_losses ::
  "'p WeightRegularization \<Rightarrow> 'p list \<Rightarrow> (string \<rightharpoonup> real) \<Rightarrow> bool \<Rightarrow> error + (string \<rightharpoonup> real)" where
  "WeightRegularization_after_losses self parameters losses train =
     (case losses (wr_loss_name self) of
        None \<Rightarrow> Inl AssertionError
      | Some v \<Rightarrow>
          Inr (losses(wr_loss_name self \<mapsto> v + wr_lambd self * weight_reg self parameters)))"

text \<open>
  \<^verbatim>\<open>ActivationRegularization\<close> reads the activations its output hook stored (\<open>None\<close> is
  Python's \<^verbatim>\<open>None\<close>) and clears the store; the callback and the store come back with the losses.
\<close>

record 'a ActivationRegularization =
  hook_store :: "'a option"
  ar_loss_name :: string
  ar_regularizer :: "'a option \<Rightarrow> real"
  ar_lambd :: real

definition ActivationRegularization_after_losses ::
  "'a ActivationRegularization \<Rightarrow> (string \<rightharpoonup> real) \<Rightarrow> bool \<Rightarrow>
   error + ((string \<rightharpoonup> real) \<times> 'a ActivationRegularization)" where
  "ActivationRegularization_after_losses self losses train =
     (case losses (ar_loss_name self) of
        None \<Rightarrow> Inl AssertionError
      | Some v \<Rightarrow>
          Inr (losses(ar_loss_name self \<mapsto> v + ar_regularizer self (hook_store self) * ar_lambd self),
               self\<lparr>hook_store := None\<rparr>))"

section \<open>swa.py: stochastic weight averaging\<close>

text \<open>
  The averaged model is its parameters by name, \<^verbatim>\<open>dict(model_swa.named_parameters())\<close>, and
  the names of its buffers, the entries of its \<^verbatim>\<open>state_dict\<close> that are not parameters (the
  running statistics of a batch normalisation layer are buffers). The model being trained is
  the list \<^verbatim>\<open>named_parameters()\<close> yields. A parameter tensor is read entry by entry, one
  real for each. The counters of the logs are Python integers.
\<close>

record StochasticWeightAveraging =
  model_swa :: "string \<rightharpoonup> real"
  buffers_swa :: "string list"
  update_every :: int
  average_after :: int
  timescale :: string

text \<open>The constructor: \<^verbatim>\<open>assert timescale == "epoch" or timescale == "iter"\<close>, then a copy of the model.\<close>

definition swa_init ::
  "(string \<times> real) list \<Rightarrow> string list \<Rightarrow> int \<Rightarrow> int \<Rightarrow> string \<Rightarrow>
   error + StochasticWeightAveraging" where
  "swa_init model buffers avg_after upd_every ts =
     (if ts = ''epoch'' \<or> ts = ''iter''
      then Inr \<lparr>model_swa = map_of model, buffers_swa = buffers, update_every = upd_every,
                average_after = avg_after, timescale = ts\<rparr>
      else Inl AssertionError)"

text \<open>
  The loop over the parameters of the trained model: a name the averaged model has too is
  overwritten (\<^verbatim>\<open>copy_\<close>) by \<^verbatim>\<open>(param1 + n_model * param2) / (n_model + 1)\<close>. With
  \<open>n_model = -1\<close> torch divides by zero and stores a non-finite value, which a real is
  not; the theorems on this function exclude that case.
\<close>

definition average_params ::
  "int \<Rightarrow> (string \<times> real) list \<Rightarrow> (string \<rightharpoonup> real) \<Rightarrow> (string \<rightharpoonup> real)" where
  "average_params n_model w1 dict_params2 =
     fold (\<lambda>(name1, param1) d.
             case d name1 of
               None \<Rightarrow> d
             | Some param2 \<Rightarrow>
                 d(name1 \<mapsto> (param1 + real_of_int n_model * param2) / real_of_int (n_model + 1)))
          w1 dict_params2"

text \<open>
  \<^verbatim>\<open>model_swa.load_state_dict(dict_params2)\<close>. Loading is strict: it raises when an entry
  of the model's \<^verbatim>\<open>state_dict\<close> is missing from the dictionary. The dictionary was built
  from the parameters of this very model and holds them all, under their names and no
  other, so a missing entry is a buffer; the parameters then take the values of the
  dictionary.
\<close>

definition load_state_dict ::
  "string list \<Rightarrow> (string \<rightharpoonup> real) \<Rightarrow> error + (string \<rightharpoonup> real)" where
  "load_state_dict buffers state_dict =
     (if \<exists>k \<in> set buffers. state_dict k = None then Inl RuntimeError else Inr state_dict)"

text \<open>
  The body shared by \<^verbatim>\<open>on_epoch_end\<close> and \<^verbatim>\<open>on_batch_end\<close>, for the counter under \<open>key\<close>:
  a missing key raises, \<^verbatim>\<open>and\<close> evaluates \<^verbatim>\<open>%\<close> only when the first test holds, and
  \<^verbatim>\<open>%\<close> by zero raises. Python's \<^verbatim>\<open>%\<close> and \<^verbatim>\<open>//\<close> round to minus infinity, as \<open>mod\<close> and
  \<open>div\<close> on \<open>int\<close> do.
\<close>

definition swa_update ::
  "StochasticWeightAveraging \<Rightarrow> (string \<times> real) list \<Rightarrow> (string \<rightharpoonup> int) \<Rightarrow> string \<Rightarrow>
   error + StochasticWeightAveraging" where
  "swa_update self model logs key =
     (case logs key of
        None \<Rightarrow> Inl (KeyError key)
      | Some counter \<Rightarrow>
          if average_after self \<le> counter then
            if update_every self = 0 then Inl ZeroDivisionError
            else if counter mod update_every self = 0 then
              (let n_model = (counter - average_after self) div update_every self;
                   dict_params2 = average_params n_model model (model_swa self)
               in case load_state_dict (buffers_swa self) dict_params2 of
                    Inl e \<Rightarrow> Inl e
                  | Inr loaded \<Rightarrow> Inr (self\<lparr>model_swa := loaded\<rparr>))
            else Inr self
          else Inr self)"

definition on_epoch_end ::
  "StochasticWeightAveraging \<Rightarrow> (string \<times> real) list \<Rightarrow> (string \<rightharpoonup> int) \<Rightarrow>
   error + (bool \<times> StochasticWeightAveraging)" where
  "on_epoch_end self model logs =
     (if timescale self = ''epoch'' then
        (case swa_update self model logs ''epoch'' of
           Inl e \<Rightarrow> Inl e
         | Inr self' \<Rightarrow> Inr (False, self'))
      else Inr (False, self))"

definition on_batch_end ::
  "StochasticWeightAveraging \<Rightarrow> (string \<times> real) list \<Rightarrow> (string \<rightharpoonup> int) \<Rightarrow>
   error + StochasticWeightAveraging" where
  "on_batch_end self model logs =
     (if timescale self = ''iter'' then swa_update self model logs ''iter_cnt''
      else Inr self)"

text \<open>
  Notation for the statements about the averaging: the parameters \<open>avg\<close> of the averaged
  model after one update with the count \<open>n\<close>, where a name the trained model \<open>w1\<close> has too
  holds \<open>(current + n * averaged) / (n + 1)\<close> and any other name what it held.
\<close>

abbreviation running_mean ::
  "int \<Rightarrow> (string \<times> real) list \<Rightarrow> (string \<rightharpoonup> real) \<Rightarrow> (string \<rightharpoonup> real)" where
  "running_mean n w1 avg \<equiv>
     (\<lambda>name. case avg name of
                None \<Rightarrow> None
              | Some averaged \<Rightarrow>
                  (case map_of w1 name of
                     None \<Rightarrow> Some averaged
                   | Some current \<Rightarrow>
                       Some ((current + real_of_int n * averaged) / real_of_int (n + 1))))"

section \<open>Properties of the pair and triplet enumeration\<close>

lemma set_combinations2: "set (combinations2 n) = {(i, j). i < j \<and> j < n}"
  by (force simp: combinations2_def)

lemma combinations2_Nil: "combinations2 n = [] \<longleftrightarrow> n < 2"
proof -
  have "combinations2 n = [] \<longleftrightarrow> set (combinations2 n) = {}" by simp
  also have "\<dots> \<longleftrightarrow> n < 2"
  proof
    assume e: "set (combinations2 n) = {}"
    show "n < 2"
    proof (rule ccontr)
      assume "\<not> n < 2"
      then have "(0, 1) \<in> set (combinations2 n)" by (simp add: set_combinations2)
      with e show False by simp
    qed
  next
    assume "n < 2"
    then show "set (combinations2 n) = {}" by (auto simp: set_combinations2)
  qed
  finally show ?thesis .
qed

lemma unat_uint8_of_nat: "unat (word_of_nat i :: uint8) = i mod 256"
  by (simp add: unat_of_nat)

lemma astype_uint8_in_range:
  assumes "(a, b) \<in> set (astype_uint8 (combinations2 n))"
  shows "unat a < n \<and> unat b < n"
proof -
  from assms obtain i j where ij: "i < j" "j < n" and a: "a = word_of_nat i" and b: "b = word_of_nat j"
    by (auto simp: astype_uint8_def set_combinations2)
  have "i mod 256 \<le> i" "j mod 256 \<le> j" by simp_all
  with ij have "i mod 256 < n" "j mod 256 < n" by linarith+
  then show ?thesis by (simp add: a b unat_uint8_of_nat)
qed

lemma get_all_pairs_eq:
  "get_all_pairs labels =
     (if length labels < 2 then Inl IndexError
      else Inr (filter (\<lambda>(a, b). labels ! unat a = labels ! unat b)
                  (astype_uint8 (combinations2 (length labels))),
                filter (\<lambda>(a, b). labels ! unat a \<noteq> labels ! unat b)
                  (astype_uint8 (combinations2 (length labels)))))"
proof (cases "length labels < 2")
  case True
  then have "astype_uint8 (combinations2 (length labels)) = []"
    by (simp add: astype_uint8_def combinations2_Nil)
  then show ?thesis using True by (simp add: get_all_pairs_def)
next
  case False
  then have ne: "astype_uint8 (combinations2 (length labels)) \<noteq> []"
    by (simp add: astype_uint8_def combinations2_Nil)
  have rng: "\<not> (\<exists>(a, b) \<in> set (astype_uint8 (combinations2 (length labels))).
                length labels \<le> unat a \<or> length labels \<le> unat b)"
  proof
    assume "\<exists>(a, b) \<in> set (astype_uint8 (combinations2 (length labels))).
                length labels \<le> unat a \<or> length labels \<le> unat b"
    then obtain a b where m: "(a, b) \<in> set (astype_uint8 (combinations2 (length labels)))"
      and o: "length labels \<le> unat a \<or> length labels \<le> unat b" by blast
    from astype_uint8_in_range [OF m] o show False by linarith
  qed
  show ?thesis using False ne rng
    unfolding get_all_pairs_def Let_def by (simp only: if_False)
qed

lemma filter_astype_uint8:
  "filter (\<lambda>(a, b). P (unat a) (unat b)) (astype_uint8 ps) =
   astype_uint8 (filter (\<lambda>(i, j). P (i mod 256) (j mod 256)) ps)"
  by (induction ps) (auto simp: astype_uint8_def unat_uint8_of_nat)

lemma get_all_pairs_3: "get_all_pairs [0, 0, 1] = Inr ([(0, 1)], [(0, 2), (1, 2)])"
  by code_simp

lemma astype_uint8_distinct:
  assumes "(a, b) \<in> set (astype_uint8 (combinations2 n))" and "n \<le> 256"
  shows "a \<noteq> b"
proof -
  from assms(1) obtain i j where ij: "i < j" "j < n" and a: "a = word_of_nat i" and b: "b = word_of_nat j"
    by (auto simp: astype_uint8_def set_combinations2)
  from ij assms(2) have "i < 256" "j < 256" by linarith+
  then have "unat a = i" "unat b = j" by (simp_all add: a b unat_uint8_of_nat)
  with ij show ?thesis by auto
qed

text \<open>
  What \<^verbatim>\<open>get_all_pairs\<close> does return: on the labels \<open>[0, 0, 1]\<close>, the positive pair
  \<open>(0, 1)\<close> and the negative pairs \<open>(0, 2)\<close> and \<open>(1, 2)\<close>; in general a returned pair is
  positive iff the labels at its two indices are equal and negative iff they differ; and as
  long as every index fits in 8 bits, its two indices differ.
\<close>

lemma get_all_pairs_partition:
  "get_all_pairs [0, 0, 1] = Inr ([(0, 1)], [(0, 2), (1, 2)]) \<and>
   (\<forall>labels pos_pairs neg_pairs a b.
      get_all_pairs labels = Inr (pos_pairs, neg_pairs) \<and>
      (a, b) \<in> set pos_pairs \<union> set neg_pairs \<longrightarrow>
        ((a, b) \<in> set pos_pairs \<longleftrightarrow> labels ! unat a = labels ! unat b) \<and>
        ((a, b) \<in> set neg_pairs \<longleftrightarrow> labels ! unat a \<noteq> labels ! unat b) \<and>
        (length labels \<le> 256 \<longrightarrow> a \<noteq> b))"
proof (intro conjI allI impI)
  show "get_all_pairs [0, 0, 1] = Inr ([(0, 1)], [(0, 2), (1, 2)])"
    by (rule get_all_pairs_3)
next
  fix labels pos_pairs neg_pairs a b
  assume h: "get_all_pairs labels = Inr (pos_pairs, neg_pairs) \<and>
             (a, b) \<in> set pos_pairs \<union> set neg_pairs"
  let ?all = "astype_uint8 (combinations2 (length labels))"
  from h have pos: "pos_pairs = filter (\<lambda>(a, b). labels ! unat a = labels ! unat b) ?all"
    and neg: "neg_pairs = filter (\<lambda>(a, b). labels ! unat a \<noteq> labels ! unat b) ?all"
    by (simp_all add: get_all_pairs_eq split: if_splits)
  from h have m: "(a, b) \<in> set ?all" by (auto simp: pos neg)
  show "(a, b) \<in> set pos_pairs \<longleftrightarrow> labels ! unat a = labels ! unat b"
    using m by (simp add: pos)
  show "(a, b) \<in> set neg_pairs \<longleftrightarrow> labels ! unat a \<noteq> labels ! unat b"
    using m by (simp add: neg)
  assume "length labels \<le> 256"
  with m show "a \<noteq> b" by (rule astype_uint8_distinct)
qed

lemma get_all_pairs_partition_example:
  "((0 :: uint8, 1 :: uint8) \<in> set [(0, 1)] \<longleftrightarrow> [0, 0, 1 :: int] ! unat (0 :: uint8) = [0, 0, 1] ! unat (1 :: uint8)) \<and>
   ((0 :: uint8, 1 :: uint8) \<in> set [(0, 2), (1, 2)] \<longleftrightarrow> [0, 0, 1 :: int] ! unat (0 :: uint8) \<noteq> [0, 0, 1] ! unat (1 :: uint8)) \<and>
   (0 :: uint8) \<noteq> 1"
proof -
  have g: "get_all_pairs [0, 0, 1] = Inr ([(0, 1)], [(0, 2), (1, 2)]) \<and>
           (0 :: uint8, 1 :: uint8) \<in> set [(0, 1)] \<union> set [(0, 2), (1, 2)]" by code_simp
  have l: "length [0, 0, 1 :: int] \<le> 256" by simp
  note t = get_all_pairs_partition [THEN conjunct2, rule_format, OF g]
  from t l show ?thesis by (simp only: simp_thms)
qed

lemma pair_0_256_cast:
  "(0, 0) \<in> set (astype_uint8 (combinations2 257))"
proof -
  have m: "(0, 256) \<in> set (combinations2 257)" by (simp add: set_combinations2)
  have eq: "(0 :: uint8, 0 :: uint8) = (\<lambda>(i, j). (word_of_nat i, word_of_nat j)) (0 :: nat, 256 :: nat)"
    by simp
  have "(\<lambda>(i, j). (word_of_nat i :: uint8, word_of_nat j :: uint8)) (0 :: nat, 256 :: nat)
          \<in> set (astype_uint8 (combinations2 257))"
    unfolding astype_uint8_def set_map using m by (rule imageI)
  then show ?thesis by (simp only: eq [symmetric])
qed

text \<open>
  C5. The claim is that \<^verbatim>\<open>get_all_pairs\<close> returns no pair with equal first and second
  index. On a batch of 257 examples with equal labels the code returns one: the pair
  \<open>(0, 256)\<close> of \<^verbatim>\<open>combinations\<close> is cast to 8 bits and comes back as the positive pair
  \<open>(0, 0)\<close>.
\<close>

theorem get_all_pairs_self_pair_257:
  "\<not> isl (get_all_pairs (replicate 257 0)) \<and>
   (0, 0) \<in> set (fst (projr (get_all_pairs (replicate 257 0))))"
proof -
  have len: "\<not> length (replicate 257 (0 :: int)) < 2" by simp
  have g: "get_all_pairs (replicate 257 0) =
      Inr (filter (\<lambda>(a, b). replicate 257 (0 :: int) ! unat a = replicate 257 0 ! unat b)
             (astype_uint8 (combinations2 257)),
           filter (\<lambda>(a, b). replicate 257 (0 :: int) ! unat a \<noteq> replicate 257 0 ! unat b)
             (astype_uint8 (combinations2 257)))"
    using len by (simp only: get_all_pairs_eq [of "replicate 257 0"] if_False length_replicate)
  show ?thesis
    unfolding g using pair_0_256_cast by simp
qed

lemma get_all_triplets_example:
  "get_all_triplets [0, 0, 1, 1] = Inr [(0, 1, 2), (0, 1, 3)]"
  by code_simp

text \<open>
  C2 (amended). On the labels \<open>[0, 0, 1, 1]\<close>, \<^verbatim>\<open>get_all_triplets\<close> emits the triplets
  \<open>(0, 1, 2)\<close> and \<open>(0, 1, 3)\<close> of anchor 0 with positive 1, and no triplet with anchor 1.
\<close>

theorem get_all_triplets_0011:
  "\<exists>ts. get_all_triplets [0, 0, 1, 1] = Inr ts \<and>
        (0, 1, 2) \<in> set ts \<and> (0, 1, 3) \<in> set ts \<and> (\<forall>p n. (1, p, n) \<notin> set ts)"
  by (simp add: get_all_triplets_example)

text \<open>
  The triplets of anchor 1 with positive 0 are not emitted: a positive pair is enumerated
  once, with its smaller index first.
\<close>

theorem get_all_triplets_no_anchor_1:
  "\<not> isl (get_all_triplets [0, 0, 1, 1]) \<and>
   (1, 0, 2) \<notin> set (projr (get_all_triplets [0, 0, 1, 1])) \<and>
   (1, 0, 3) \<notin> set (projr (get_all_triplets [0, 0, 1, 1]))"
  by code_simp

lemma long_pairs_astype_uint8:
  "long_pairs (astype_uint8 ps) = map (\<lambda>(i, j). (i mod 256, j mod 256)) ps"
  by (induction ps) (auto simp: long_pairs_def astype_uint8_def unat_uint8_of_nat)

lemma combinations2_small:
  assumes "n \<le> 256" and "(i, j) \<in> set (combinations2 n)"
  shows "i mod 256 = i \<and> j mod 256 = j"
proof -
  from assms(2) have "i < j" "j < n" by (simp_all add: set_combinations2)
  with assms(1) have "i < 256" "j < 256" by linarith+
  then show ?thesis by simp
qed

lemma mod_pairs_small:
  assumes "n \<le> 256"
  shows "map (\<lambda>(i, j). (i mod 256, j mod 256))
           (filter (\<lambda>(i, j). P (i mod 256) (j mod 256)) (combinations2 n)) =
         filter (\<lambda>(i, j). P i j) (combinations2 n)"
proof -
  have f: "filter (\<lambda>(i, j). P (i mod 256) (j mod 256)) (combinations2 n) =
           filter (\<lambda>(i, j). P i j) (combinations2 n)"
    by (rule filter_cong [OF refl]) (auto dest: combinations2_small [OF assms])
  have "map (\<lambda>(i, j). (i mod 256, j mod 256)) (filter (\<lambda>(i, j). P i j) (combinations2 n)) =
        map (\<lambda>x. x) (filter (\<lambda>(i, j). P i j) (combinations2 n))"
    by (rule map_cong [OF refl]) (auto dest: combinations2_small [OF assms])
  with f show ?thesis by simp
qed

text \<open>
  C10. \<^verbatim>\<open>get_all_pairs\<close> casts the enumerated index pairs to 8-bit unsigned integers: a
  batch of at least two examples yields the pairs \<open>(i, j)\<close> of \<^verbatim>\<open>combinations\<close> as
  \<open>(i mod 256, j mod 256)\<close>, split by the labels at those reduced indices. For a batch of
  at most 256 examples the returned indices are the true ones; for a larger batch an index
  from 256 on is returned reduced modulo 256, so that \<open>(0, 256)\<close> comes back as \<open>(0, 0)\<close>.
\<close>

theorem get_all_pairs_uint8_cast:
  "2 \<le> length labels \<Longrightarrow>
     (\<exists>pos_pairs neg_pairs.
        get_all_pairs labels = Inr (pos_pairs, neg_pairs) \<and>
        long_pairs pos_pairs =
          map (\<lambda>(i, j). (i mod 256, j mod 256))
            (filter (\<lambda>(i, j). labels ! (i mod 256) = labels ! (j mod 256))
               (combinations2 (length labels))) \<and>
        long_pairs neg_pairs =
          map (\<lambda>(i, j). (i mod 256, j mod 256))
            (filter (\<lambda>(i, j). labels ! (i mod 256) \<noteq> labels ! (j mod 256))
               (combinations2 (length labels))) \<and>
        (length labels \<le> 256 \<longrightarrow>
           long_pairs pos_pairs =
             filter (\<lambda>(i, j). labels ! i = labels ! j) (combinations2 (length labels)) \<and>
           long_pairs neg_pairs =
             filter (\<lambda>(i, j). labels ! i \<noteq> labels ! j) (combinations2 (length labels))) \<and>
        (256 < length labels \<longrightarrow> (0, 0) \<in> set (long_pairs pos_pairs)))"
proof -
  assume n2: "2 \<le> length labels"
  let ?n = "length labels"
  let ?ps = "filter (\<lambda>(i, j). labels ! (i mod 256) = labels ! (j mod 256)) (combinations2 ?n)"
  let ?ns = "filter (\<lambda>(i, j). labels ! (i mod 256) \<noteq> labels ! (j mod 256)) (combinations2 ?n)"
  have g: "get_all_pairs labels = Inr (astype_uint8 ?ps, astype_uint8 ?ns)"
    using n2
    by (simp add: get_all_pairs_eq
        filter_astype_uint8 [where P = "\<lambda>x y. labels ! x = labels ! y"]
        filter_astype_uint8 [where P = "\<lambda>x y. labels ! x \<noteq> labels ! y"])
  have small: "long_pairs (astype_uint8 ?ps) =
                 filter (\<lambda>(i, j). labels ! i = labels ! j) (combinations2 ?n) \<and>
               long_pairs (astype_uint8 ?ns) =
                 filter (\<lambda>(i, j). labels ! i \<noteq> labels ! j) (combinations2 ?n)"
    if "?n \<le> 256"
    using mod_pairs_small [OF that, where P = "\<lambda>x y. labels ! x = labels ! y"]
          mod_pairs_small [OF that, where P = "\<lambda>x y. labels ! x \<noteq> labels ! y"]
    by (simp add: long_pairs_astype_uint8)
  have big: "(0, 0) \<in> set (long_pairs (astype_uint8 ?ps))" if "256 < ?n"
  proof -
    from that have "(0, 256) \<in> set ?ps" by (simp add: set_combinations2)
    then have "(\<lambda>(i, j). (i mod 256, j mod 256)) (0 :: nat, 256 :: nat)
                 \<in> set (map (\<lambda>(i, j). (i mod 256, j mod 256)) ?ps)"
      unfolding set_map by (rule imageI)
    then show ?thesis by (simp add: long_pairs_astype_uint8)
  qed
  show ?thesis
    using g small big by (simp add: long_pairs_astype_uint8)
qed

theorem get_all_pairs_uint8_cast_witness:
  "2 \<le> length [0, 0, 1 :: int] \<and> length [0, 0, 1 :: int] \<le> 256 \<and>
   (\<exists>pos_pairs neg_pairs.
      get_all_pairs [0, 0, 1] = Inr (pos_pairs, neg_pairs) \<and>
      long_pairs pos_pairs = [(0, 1)] \<and> long_pairs neg_pairs = [(0, 2), (1, 2)]) \<and>
   256 < length (replicate 257 (0 :: int)) \<and>
   (\<exists>pos_pairs neg_pairs.
      get_all_pairs (replicate 257 0) = Inr (pos_pairs, neg_pairs) \<and>
      (0, 0) \<in> set (long_pairs pos_pairs))"
proof -
  have h: "2 \<le> length [0, 0, 1 :: int]" by simp
  have c: "combinations2 (length [0, 0, 1 :: int]) = [(0, 1), (0, 2), (1, 2)]" by code_simp
  have small: "\<exists>pos_pairs neg_pairs.
      get_all_pairs [0, 0, 1] = Inr (pos_pairs, neg_pairs) \<and>
      long_pairs pos_pairs = [(0, 1)] \<and> long_pairs neg_pairs = [(0, 2), (1, 2)]"
    using get_all_pairs_uint8_cast [OF h] unfolding c by auto
  have h': "2 \<le> length (replicate 257 (0 :: int))" and b: "256 < length (replicate 257 (0 :: int))"
    by simp_all
  from get_all_pairs_uint8_cast [OF h'] obtain pos_pairs neg_pairs where
    g: "get_all_pairs (replicate 257 0) = Inr (pos_pairs, neg_pairs)" and
    i: "256 < length (replicate 257 (0 :: int)) \<longrightarrow> (0, 0) \<in> set (long_pairs pos_pairs)"
    by blast
  from g i b have big: "\<exists>pos_pairs neg_pairs.
      get_all_pairs (replicate 257 0) = Inr (pos_pairs, neg_pairs) \<and>
      (0, 0) \<in> set (long_pairs pos_pairs)" by blast
  from small big h b show ?thesis by simp
qed

section \<open>Properties of batch-hard mining\<close>

lemma torch_argmax_Inr:
  assumes "xs \<noteq> []"
  shows "\<exists>k. torch_argmax xs = Inr k \<and> k < length xs \<and> (\<forall>x \<in> set xs. x \<le> xs ! k)"
proof -
  let ?f = "filter (\<lambda>i. xs ! i = Max (set xs)) [0 ..< length xs]"
  from assms have "Max (set xs) \<in> set xs" by (intro Max_in) simp_all
  then obtain i where "i < length xs" "xs ! i = Max (set xs)" by (auto simp: in_set_conv_nth)
  then have "i \<in> set ?f" by simp
  then have "?f \<noteq> []" by (metis empty_iff list.set(1))
  then have "hd ?f \<in> set ?f" by (rule hd_in_set)
  then have k: "hd ?f < length xs" "xs ! hd ?f = Max (set xs)" by simp_all
  have "\<forall>x \<in> set xs. x \<le> xs ! hd ?f" using k(2) by simp
  with k(1) assms show ?thesis by (simp add: torch_argmax_def)
qed

lemma torch_argmin_Inr:
  assumes "xs \<noteq> []"
  shows "\<exists>k. torch_argmin xs = Inr k \<and> k < length xs \<and> (\<forall>x \<in> set xs. xs ! k \<le> x)"
proof -
  let ?f = "filter (\<lambda>i. xs ! i = Min (set xs)) [0 ..< length xs]"
  from assms have "Min (set xs) \<in> set xs" by (intro Min_in) simp_all
  then obtain i where "i < length xs" "xs ! i = Min (set xs)" by (auto simp: in_set_conv_nth)
  then have "i \<in> set ?f" by simp
  then have "?f \<noteq> []" by (metis empty_iff list.set(1))
  then have "hd ?f \<in> set ?f" by (rule hd_in_set)
  then have k: "hd ?f < length xs" "xs ! hd ?f = Min (set xs)" by simp_all
  have "\<forall>x \<in> set xs. xs ! hd ?f \<le> x" using k(2) by simp
  with k(1) assms show ?thesis by (simp add: torch_argmin_def)
qed

lemma anchor_triplet_Inr:
  assumes pos: "\<exists>p \<in> set c_idx. p \<noteq> an" and neg: "other_idx \<noteq> []"
  shows "\<exists>p n. anchor_triplet dist_mat c_idx other_idx an = Inr (an, p, n) \<and>
           hardest dist_mat (set c_idx) (set other_idx) (an, p, n)"
proof -
  let ?ps = "filter (\<lambda>p. p \<noteq> an) c_idx"
  let ?pd = "map (\<lambda>(a, p). dist_mat a p) (map (\<lambda>p. (an, p)) ?ps)"
  let ?nd = "map (\<lambda>(a, n). dist_mat a n) (map (\<lambda>n. (an, n)) other_idx)"
  from pos have pne: "?ps \<noteq> []" by (auto simp: filter_empty_conv)
  then have "?pd \<noteq> []" by simp
  from torch_argmax_Inr [OF this] obtain k where
    k: "torch_argmax ?pd = Inr k" "k < length ?ps" "\<forall>x \<in> set ?pd. x \<le> ?pd ! k"
    by auto
  from neg have "?nd \<noteq> []" by simp
  from torch_argmin_Inr [OF this] obtain m where
    m: "torch_argmin ?nd = Inr m" "m < length other_idx" "\<forall>x \<in> set ?nd. ?nd ! m \<le> x"
    by auto
  have pk: "?pd ! k = dist_mat an (?ps ! k)" using k(2) by simp
  have nm: "?nd ! m = dist_mat an (other_idx ! m)" using m(2) by simp
  have pin: "?ps ! k \<in> set ?ps" using k(2) by (rule nth_mem)
  have nin: "other_idx ! m \<in> set other_idx" using m(2) by (rule nth_mem)
  have pmax: "\<forall>p' \<in> set c_idx - {an}. dist_mat an p' \<le> dist_mat an (?ps ! k)"
  proof
    fix p' assume "p' \<in> set c_idx - {an}"
    then have "p' \<in> set ?ps" by simp
    then have "dist_mat an p' \<in> set ?pd" by force
    with k(3) pk show "dist_mat an p' \<le> dist_mat an (?ps ! k)" by (metis)
  qed
  have nmin: "\<forall>n' \<in> set other_idx. dist_mat an (other_idx ! m) \<le> dist_mat an n'"
  proof
    fix n' assume "n' \<in> set other_idx"
    then have "dist_mat an n' \<in> set ?nd" by force
    with m(3) nm show "dist_mat an (other_idx ! m) \<le> dist_mat an n'" by (metis)
  qed
  have h: "hardest dist_mat (set c_idx) (set other_idx) (an, ?ps ! k, other_idx ! m)"
    using pin nin pmax nmin by simp
  have "anchor_triplet dist_mat c_idx other_idx an = Inr (an, ?ps ! k, other_idx ! m)"
    using pne neg k(1,2) m(1,2) by (simp add: anchor_triplet_def Let_def)
  with h show ?thesis by blast
qed

lemma anchors_loop_Inr:
  assumes "\<forall>an \<in> set ans. \<exists>p \<in> set c_idx. p \<noteq> an" and "other_idx \<noteq> []"
  shows "\<exists>ts. anchors_loop dist_mat c_idx other_idx ans = Inr ts \<and> map fst ts = ans \<and>
           (\<forall>t \<in> set ts. hardest dist_mat (set c_idx) (set other_idx) t)"
  using assms(1)
proof (induction ans)
  case Nil
  then show ?case by simp
next
  case (Cons an rest)
  from Cons.prems have "\<exists>p \<in> set c_idx. p \<noteq> an" by simp
  from anchor_triplet_Inr [OF this assms(2)] obtain p n where
    t: "anchor_triplet dist_mat c_idx other_idx an = Inr (an, p, n)"
       "hardest dist_mat (set c_idx) (set other_idx) (an, p, n)" by blast
  from Cons.IH Cons.prems obtain ts where
    ts: "anchors_loop dist_mat c_idx other_idx rest = Inr ts" "map fst ts = rest"
        "\<forall>t \<in> set ts. hardest dist_mat (set c_idx) (set other_idx) t" by auto
  show ?case using t ts by simp
qed


lemma set_where_eq: "set (where_eq labels c) = {i. i < length labels \<and> labels ! i = c}"
  by (auto simp: where_eq_def)

lemma set_where_ne: "set (where_ne labels c) = {i. i < length labels \<and> labels ! i \<noteq> c}"
  by (auto simp: where_ne_def)

lemma distinct_where_eq: "distinct (where_eq labels c)"
  by (simp add: where_eq_def)

lemma two_distinct_other:
  assumes "2 \<le> length xs" and "distinct xs" and "a \<in> set xs"
  shows "\<exists>p \<in> set xs. p \<noteq> a"
proof (rule ccontr)
  assume "\<not> (\<exists>p \<in> set xs. p \<noteq> a)"
  then have "set xs \<subseteq> {a}" by auto
  then have "card (set xs) \<le> card {a}" by (intro card_mono) simp_all
  with assms(2) have "length xs \<le> 1" by (simp add: distinct_card)
  with assms(1) show False by simp
qed

text \<open>A class takes part when it has two members and some example is outside it.\<close>

lemma class_triplets_Inr:
  "\<exists>ts. class_triplets dist_mat labels c = Inr ts \<and>
     map fst ts = (if 2 \<le> length (where_eq labels c) \<and> where_ne labels c \<noteq> []
                   then where_eq labels c else []) \<and>
     (\<forall>t \<in> set ts. hardest dist_mat (set (where_eq labels c)) (set (where_ne labels c)) t)"
proof (cases "2 \<le> length (where_eq labels c) \<and> where_ne labels c \<noteq> []")
  case True
  then have two: "2 \<le> length (where_eq labels c)" and ne: "where_ne labels c \<noteq> []" by simp_all
  have "\<forall>an \<in> set (where_eq labels c). \<exists>p \<in> set (where_eq labels c). p \<noteq> an"
    using two_distinct_other [OF two distinct_where_eq] by blast
  from anchors_loop_Inr [OF this ne, of dist_mat] obtain ts where
    ts: "anchors_loop dist_mat (where_eq labels c) (where_ne labels c) (where_eq labels c) = Inr ts"
        "map fst ts = where_eq labels c"
        "\<forall>t \<in> set ts. hardest dist_mat (set (where_eq labels c)) (set (where_ne labels c)) t"
    by blast
  from ne have "\<not> length (where_ne labels c) < 1" by (cases "where_ne labels c") simp_all
  with two ts(1) have "class_triplets dist_mat labels c = Inr ts"
    by (simp add: class_triplets_def Let_def)
  with ts(2,3) True show ?thesis by simp
next
  case False
  then have "length (where_eq labels c) < 2 \<or> length (where_ne labels c) < 1" by auto
  then have "class_triplets dist_mat labels c = Inr []"
    by (auto simp: class_triplets_def Let_def)
  with False show ?thesis by auto
qed

text \<open>The anchors of the whole result, class by class, and the triplet of each.\<close>

lemma get_batch_hard_triplets_Inr:
  "\<exists>ts. get_batch_hard_triplets dist_mat labels cs = Inr ts \<and>
     map fst ts = concat (map (taking_part labels) cs) \<and>
     (\<forall>t \<in> set ts. hardest dist_mat (set (where_eq labels (labels ! fst t)))
                        (set (where_ne labels (labels ! fst t))) t)"
proof (induction cs)
  case Nil
  show ?case by simp
next
  case (Cons c cs)
  from class_triplets_Inr [of dist_mat labels c] obtain ts where
    ts: "class_triplets dist_mat labels c = Inr ts" "map fst ts = taking_part labels c"
        "\<forall>t \<in> set ts. hardest dist_mat (set (where_eq labels c)) (set (where_ne labels c)) t"
    by blast
  have cls: "labels ! fst t = c" if "t \<in> set ts" for t
  proof -
    from that have "fst t \<in> set (map fst ts)" by simp
    then have "fst t \<in> set (where_eq labels c)"
      unfolding ts(2) by (simp split: if_splits)
    then show ?thesis by (simp add: set_where_eq)
  qed
  from Cons.IH obtain rest where
    rest: "get_batch_hard_triplets dist_mat labels cs = Inr rest"
          "map fst rest = concat (map (taking_part labels) cs)"
          "\<forall>t \<in> set rest. hardest dist_mat (set (where_eq labels (labels ! fst t)))
                              (set (where_ne labels (labels ! fst t))) t"
    by blast
  have "\<forall>t \<in> set (ts @ rest). hardest dist_mat (set (where_eq labels (labels ! fst t)))
                              (set (where_ne labels (labels ! fst t))) t"
  proof
    fix t assume "t \<in> set (ts @ rest)"
    then consider "t \<in> set ts" | "t \<in> set rest" by auto
    then show "hardest dist_mat (set (where_eq labels (labels ! fst t)))
                              (set (where_ne labels (labels ! fst t))) t"
    proof cases
      case 1
      with ts(3) cls [OF 1] show ?thesis by simp
    next
      case 2
      with rest(3) show ?thesis by simp
    qed
  qed
  with ts(1,2) rest(1,2) show ?case by simp
qed

lemma in_anchors_iff:
  "a \<in> set (concat (map (taking_part labels) cs)) \<longleftrightarrow>
     a < length labels \<and> labels ! a \<in> set cs \<and>
     2 \<le> length (where_eq labels (labels ! a)) \<and> where_ne labels (labels ! a) \<noteq> []"
  by (induction cs) (auto simp: set_where_eq)

lemma distinct_anchors:
  "distinct cs \<Longrightarrow> distinct (concat (map (taking_part labels) cs))"
proof (induction cs)
  case Nil
  show ?case by simp
next
  case (Cons c cs)
  have "set (taking_part labels c) \<inter> set (concat (map (taking_part labels) cs)) = {}"
  proof (rule ccontr)
    assume "\<not> ?thesis"
    then obtain a where a: "a \<in> set (taking_part labels c)"
      "a \<in> set (concat (map (taking_part labels) cs))" by blast
    from a(1) have "labels ! a = c" by (simp add: set_where_eq split: if_splits)
    moreover from a(2) have "labels ! a \<in> set cs" by (simp only: in_anchors_iff)
    ultimately show False using Cons.prems by simp
  qed
  with Cons show ?case by (simp add: distinct_where_eq)
qed

lemma filter_fst_single:
  "distinct (map fst ts) \<Longrightarrow> t \<in> set ts \<Longrightarrow> filter (\<lambda>u. fst u = fst t) ts = [t]"
proof (induction ts)
  case Nil
  then show ?case by simp
next
  case (Cons u ts)
  show ?case
  proof (cases "t = u")
    case True
    from Cons.prems(1) have "fst u \<notin> fst ` set ts" by simp
    then have "\<forall>v \<in> set ts. fst v \<noteq> fst u" by (metis imageI)
    then have "filter (\<lambda>v. fst v = fst u) ts = []" by (simp add: filter_empty_conv)
    with True show ?thesis by simp
  next
    case False
    with Cons.prems have t: "t \<in> set ts" by simp
    with Cons.prems(1) have "fst u \<noteq> fst t" by force
    with Cons.IH Cons.prems(1) t show ?thesis by simp
  qed
qed

lemma filter_fst_none:
  "a \<notin> set (map fst ts) \<Longrightarrow> filter (\<lambda>u. fst u = a) ts = []"
  by (auto simp: filter_empty_conv)

lemma where_eq_two_iff:
  assumes "a < length labels"
  shows "2 \<le> length (where_eq labels (labels ! a)) \<longleftrightarrow>
           (\<exists>p < length labels. p \<noteq> a \<and> labels ! p = labels ! a)"
proof
  assume "2 \<le> length (where_eq labels (labels ! a))"
  moreover from assms have "a \<in> set (where_eq labels (labels ! a))" by (simp add: set_where_eq)
  ultimately obtain p where "p \<in> set (where_eq labels (labels ! a))" "p \<noteq> a"
    using two_distinct_other [OF _ distinct_where_eq] by blast
  then show "\<exists>p < length labels. p \<noteq> a \<and> labels ! p = labels ! a"
    by (auto simp: set_where_eq)
next
  assume "\<exists>p < length labels. p \<noteq> a \<and> labels ! p = labels ! a"
  then obtain p where p: "p < length labels" "p \<noteq> a" "labels ! p = labels ! a" by blast
  with assms have "{a, p} \<subseteq> set (where_eq labels (labels ! a))" by (simp add: set_where_eq)
  then have "card {a, p} \<le> card (set (where_eq labels (labels ! a)))"
    by (intro card_mono) simp_all
  with p(2) show "2 \<le> length (where_eq labels (labels ! a))"
    by (simp add: distinct_card [OF distinct_where_eq])
qed

lemma where_ne_nonempty_iff:
  "where_ne labels c \<noteq> [] \<longleftrightarrow> (\<exists>n < length labels. labels ! n \<noteq> c)"
proof -
  have "where_ne labels c \<noteq> [] \<longleftrightarrow> set (where_ne labels c) \<noteq> {}" by simp
  also have "\<dots> \<longleftrightarrow> (\<exists>n < length labels. labels ! n \<noteq> c)" by (auto simp: set_where_ne)
  finally show ?thesis .
qed

text \<open>
  C3. Whatever the order in which the distinct labels are visited,
  \<^verbatim>\<open>get_batch_hard_triplets\<close> returns without an error, and for every example \<open>a\<close> of the
  batch: when its class has another member and some example has a different label, exactly
  one returned triplet has the anchor \<open>a\<close>; its positive is a member of the class other
  than \<open>a\<close> at the greatest distance from \<open>a\<close>, and its negative an example of a
  different label at the least distance from \<open>a\<close>. When the class of \<open>a\<close> has no other
  member, or no example has a different label, no returned triplet has the anchor \<open>a\<close>.
\<close>

theorem get_batch_hard_triplets_hardest:
  assumes "distinct unique_class" and "set unique_class = set labels"
  shows "\<exists>ts. get_batch_hard_triplets dist_mat labels unique_class = Inr ts \<and>
           (\<forall>a < length labels.
              if (\<exists>p < length labels. p \<noteq> a \<and> labels ! p = labels ! a) \<and>
                 (\<exists>n < length labels. labels ! n \<noteq> labels ! a)
              then \<exists>p n. filter (\<lambda>t. fst t = a) ts = [(a, p, n)] \<and>
                     hardest dist_mat {i. i < length labels \<and> labels ! i = labels ! a}
                       {i. i < length labels \<and> labels ! i \<noteq> labels ! a} (a, p, n)
              else filter (\<lambda>t. fst t = a) ts = [])"
proof -
  from get_batch_hard_triplets_Inr [of dist_mat labels unique_class] obtain ts where
    ts: "get_batch_hard_triplets dist_mat labels unique_class = Inr ts"
        "map fst ts = concat (map (taking_part labels) unique_class)"
        "\<forall>t \<in> set ts. hardest dist_mat (set (where_eq labels (labels ! fst t)))
                          (set (where_ne labels (labels ! fst t))) t"
    by blast
  have dist: "distinct (map fst ts)"
    unfolding ts(2) using assms(1) by (rule distinct_anchors)
  have anchor: "a \<in> set (map fst ts) \<longleftrightarrow>
      (\<exists>p < length labels. p \<noteq> a \<and> labels ! p = labels ! a) \<and>
      (\<exists>n < length labels. labels ! n \<noteq> labels ! a)" if "a < length labels" for a
  proof -
    from that have "labels ! a \<in> set unique_class" by (simp add: assms(2))
    with that show ?thesis
      unfolding ts(2) in_anchors_iff
      by (simp add: where_eq_two_iff [OF that] where_ne_nonempty_iff)
  qed
  have "if (\<exists>p < length labels. p \<noteq> a \<and> labels ! p = labels ! a) \<and>
           (\<exists>n < length labels. labels ! n \<noteq> labels ! a)
        then \<exists>p n. filter (\<lambda>t. fst t = a) ts = [(a, p, n)] \<and>
               hardest dist_mat {i. i < length labels \<and> labels ! i = labels ! a}
                 {i. i < length labels \<and> labels ! i \<noteq> labels ! a} (a, p, n)
        else filter (\<lambda>t. fst t = a) ts = []" if a: "a < length labels" for a
  proof (cases "a \<in> set (map fst ts)")
    case True
    then obtain t where t: "t \<in> set ts" "fst t = a" by auto
    obtain p n where tpn: "t = (a, p, n)" using t(2) by (cases t) auto
    from filter_fst_single [OF dist t(1)] t(2)
    have f: "filter (\<lambda>u. fst u = a) ts = [(a, p, n)]" by (simp add: tpn)
    from ts(3) t(1) have "hardest dist_mat (set (where_eq labels (labels ! a)))
                          (set (where_ne labels (labels ! a))) (a, p, n)"
      unfolding tpn by fastforce
    then have "hardest dist_mat {i. i < length labels \<and> labels ! i = labels ! a}
                 {i. i < length labels \<and> labels ! i \<noteq> labels ! a} (a, p, n)"
      by (simp only: set_where_eq set_where_ne)
    then have "\<exists>p n. filter (\<lambda>t. fst t = a) ts = [(a, p, n)] \<and>
               hardest dist_mat {i. i < length labels \<and> labels ! i = labels ! a}
                 {i. i < length labels \<and> labels ! i \<noteq> labels ! a} (a, p, n)"
      using f by blast
    moreover from True anchor [OF a]
    have "(\<exists>p < length labels. p \<noteq> a \<and> labels ! p = labels ! a) \<and>
          (\<exists>n < length labels. labels ! n \<noteq> labels ! a)" by simp
    ultimately show ?thesis by (simp only: simp_thms if_True)
  next
    case False
    then have "filter (\<lambda>u. fst u = a) ts = []" by (rule filter_fst_none)
    with False anchor [OF a] show ?thesis by (simp only: simp_thms if_False)
  qed
  with ts(1) show ?thesis by blast
qed

theorem get_batch_hard_triplets_hardest_witness:
  "distinct [0, 1 :: int] \<and> set [0, 1 :: int] = set [0, 0, 0, 1, 1] \<and>
   (\<exists>ts p n.
      get_batch_hard_triplets (\<lambda>i j. \<bar>[0, 1, 5, 2, 10 :: int] ! i - [0, 1, 5, 2, 10] ! j\<bar>)
        [0, 0, 0, 1, 1] [0, 1] = Inr ts \<and>
      filter (\<lambda>t. fst t = 0) ts = [(0, p, n)] \<and>
      hardest (\<lambda>i j. \<bar>[0, 1, 5, 2, 10 :: int] ! i - [0, 1, 5, 2, 10] ! j\<bar>)
        {i. i < length [0, 0, 0, 1, 1 :: int] \<and> [0, 0, 0, 1, 1 :: int] ! i = [0, 0, 0, 1, 1] ! 0}
        {i. i < length [0, 0, 0, 1, 1 :: int] \<and> [0, 0, 0, 1, 1 :: int] ! i \<noteq> [0, 0, 0, 1, 1] ! 0}
        (0, p, n))"
proof -
  let ?d = "\<lambda>i j. \<bar>[0, 1, 5, 2, 10 :: int] ! i - [0, 1, 5, 2, 10] ! j\<bar>"
  let ?l = "[0, 0, 0, 1, 1 :: int]"
  have h1: "distinct [0, 1 :: int]" by simp
  have h2: "set [0, 1 :: int] = set ?l" by auto
  have a: "(0 :: nat) < length ?l" by simp
  have c1: "\<exists>p < length ?l. p \<noteq> 0 \<and> ?l ! p = ?l ! 0"
    by (rule exI [of _ 1]) simp
  have c2: "\<exists>n < length ?l. ?l ! n \<noteq> ?l ! 0"
    by (rule exI [of _ 3]) simp
  from get_batch_hard_triplets_hardest [OF h1 h2, of ?d] obtain ts where
    ts: "get_batch_hard_triplets ?d ?l [0, 1] = Inr ts" and
    all: "\<forall>a < length ?l.
              if (\<exists>p < length ?l. p \<noteq> a \<and> ?l ! p = ?l ! a) \<and>
                 (\<exists>n < length ?l. ?l ! n \<noteq> ?l ! a)
              then \<exists>p n. filter (\<lambda>t. fst t = a) ts = [(a, p, n)] \<and>
                     hardest ?d {i. i < length ?l \<and> ?l ! i = ?l ! a}
                       {i. i < length ?l \<and> ?l ! i \<noteq> ?l ! a} (a, p, n)
              else filter (\<lambda>t. fst t = a) ts = []"
    by blast
  from all a have "if (\<exists>p < length ?l. p \<noteq> 0 \<and> ?l ! p = ?l ! 0) \<and>
                 (\<exists>n < length ?l. ?l ! n \<noteq> ?l ! 0)
              then \<exists>p n. filter (\<lambda>t. fst t = 0) ts = [(0, p, n)] \<and>
                     hardest ?d {i. i < length ?l \<and> ?l ! i = ?l ! 0}
                       {i. i < length ?l \<and> ?l ! i \<noteq> ?l ! 0} (0, p, n)
              else filter (\<lambda>t. fst t = 0) ts = []"
    by blast
  with c1 c2 have "\<exists>p n. filter (\<lambda>t. fst t = 0) ts = [(0, p, n)] \<and>
                     hardest ?d {i. i < length ?l \<and> ?l ! i = ?l ! 0}
                       {i. i < length ?l \<and> ?l ! i \<noteq> ?l ! 0} (0, p, n)"
    by (simp only: simp_thms if_True)
  with ts h1 h2 show ?thesis by blast
qed

lemma get_batch_hard_triplets_example:
  "get_batch_hard_triplets (\<lambda>i j. \<bar>[0, 1, 5, 2, 10 :: int] ! i - [0, 1, 5, 2, 10] ! j\<bar>)
        [0, 0, 0, 1, 1] [0, 1] = Inr [(0, 2, 3), (1, 2, 3), (2, 0, 3), (3, 4, 1), (4, 3, 2)]"
  by code_simp

section \<open>Degenerate batches\<close>

lemma concat_all_Nil: "(\<And>x. f x = []) \<Longrightarrow> concat (map f xs) = []"
  by (induction xs) simp_all

lemma no_anchors_no_triplets:
  assumes "\<And>c. taking_part labels c = []"
  shows "get_batch_hard_triplets dist_mat labels cs = Inr []"
proof -
  from get_batch_hard_triplets_Inr [of dist_mat labels cs] obtain ts where
    ts: "get_batch_hard_triplets dist_mat labels cs = Inr ts"
        "map fst ts = concat (map (taking_part labels) cs)" by blast
  have "concat (map (taking_part labels) cs) = []"
    using assms by (rule concat_all_Nil)
  with ts(2) have "ts = []" by (simp only: map_is_Nil_conv)
  with ts(1) show ?thesis by (simp only:)
qed

lemma single_label_no_anchors:
  assumes "set labels = {c}"
  shows "taking_part labels c' = []"
proof (cases "where_ne labels c' = []")
  case True
  then show ?thesis by (simp only: simp_thms if_False)
next
  case False
  then obtain n where "n < length labels" "labels ! n \<noteq> c'"
    unfolding where_ne_nonempty_iff by blast
  with assms have "c \<noteq> c'" by (metis nth_mem singletonD)
  with assms have "set (where_eq labels c') = {}" unfolding set_where_eq by fastforce
  then have "where_eq labels c' = []" by (simp only: set_empty)
  then have "\<not> 2 \<le> length (where_eq labels c')" by simp
  then show ?thesis by (simp only: simp_thms if_False)
qed

lemma distinct_labels_no_anchors:
  assumes "distinct labels"
  shows "taking_part labels c = []"
proof (cases "2 \<le> length (where_eq labels c)")
  case True
  then have "where_eq labels c \<noteq> []" by auto
  then obtain a where a: "a \<in> set (where_eq labels c)" by (cases "where_eq labels c") auto
  from two_distinct_other [OF True distinct_where_eq a] obtain p where
    p: "p \<in> set (where_eq labels c)" "p \<noteq> a" by blast
  from a p have "a < length labels" "p < length labels" "labels ! a = labels ! p"
    by (simp_all add: set_where_eq)
  with assms p(2) have False by (simp add: nth_eq_iff_index_eq)
  then show ?thesis ..
next
  case False
  then show ?thesis by simp
qed

lemma get_all_triplets_no_neg:
  "get_all_pairs labels = Inr (pos_pairs, []) \<Longrightarrow> get_all_triplets labels = Inr []"
  by (simp add: get_all_triplets_def)

lemma get_all_triplets_no_pos:
  "get_all_pairs labels = Inr ([], neg_pairs) \<Longrightarrow> get_all_triplets labels = Inr []"
  by (simp add: get_all_triplets_def)

lemma single_label_no_neg:
  assumes "set labels = {c}" and "2 \<le> length labels"
  shows "\<exists>pos_pairs. get_all_pairs labels = Inr (pos_pairs, [])"
proof -
  have "labels ! unat a = labels ! unat b"
    if "(a, b) \<in> set (astype_uint8 (combinations2 (length labels)))" for a b
  proof -
    from astype_uint8_in_range [OF that]
    have "labels ! unat a \<in> set labels" "labels ! unat b \<in> set labels" by simp_all
    with assms(1) show ?thesis by simp
  qed
  then have "filter (\<lambda>(a, b). labels ! unat a \<noteq> labels ! unat b)
               (astype_uint8 (combinations2 (length labels))) = []"
    by (auto simp: filter_empty_conv)
  with assms(2) show ?thesis by (simp add: get_all_pairs_eq)
qed

lemma distinct_labels_no_pos:
  assumes "distinct labels" and "2 \<le> length labels" and "length labels \<le> 256"
  shows "\<exists>neg_pairs. get_all_pairs labels = Inr ([], neg_pairs)"
proof -
  have "labels ! unat a \<noteq> labels ! unat b"
    if m: "(a, b) \<in> set (astype_uint8 (combinations2 (length labels)))" for a b
  proof -
    from astype_uint8_in_range [OF m] have r: "unat a < length labels" "unat b < length labels"
      by simp_all
    from astype_uint8_distinct [OF m assms(3)] have "unat a \<noteq> unat b" by (simp add: word_unat_eq_iff)
    with r assms(1) show ?thesis by (simp add: nth_eq_iff_index_eq)
  qed
  then have "filter (\<lambda>(a, b). labels ! unat a = labels ! unat b)
               (astype_uint8 (combinations2 (length labels))) = []"
    by (auto simp: filter_empty_conv)
  with assms(2) show ?thesis by (simp add: get_all_pairs_eq)
qed

text \<open>
  Where the degenerate batches do behave as required: \<^verbatim>\<open>get_batch_hard_triplets\<close> returns
  no triplet, and raises no error, for every batch with one distinct label and for every
  batch of distinct labels; \<^verbatim>\<open>get_all_triplets\<close> returns none for a batch of at least two
  examples with one distinct label; and for distinct labels \<^verbatim>\<open>get_all_pairs\<close> returns no
  positive pair and \<^verbatim>\<open>get_all_triplets\<close> no triplet when the batch has at least two
  examples and every index fits in 8 bits.
\<close>

lemma degenerate_batches:
  "(set labels = {c} \<longrightarrow> get_batch_hard_triplets dist_mat labels unique_class = Inr []) \<and>
   (set labels = {c} \<and> 2 \<le> length labels \<longrightarrow> get_all_triplets labels = Inr []) \<and>
   (distinct labels \<longrightarrow> get_batch_hard_triplets dist_mat labels unique_class = Inr []) \<and>
   (distinct labels \<and> 2 \<le> length labels \<and> length labels \<le> 256 \<longrightarrow>
      (\<exists>neg_pairs. get_all_pairs labels = Inr ([], neg_pairs)) \<and>
      get_all_triplets labels = Inr [])"
proof (intro conjI impI)
  assume "set labels = {c}"
  then show "get_batch_hard_triplets dist_mat labels unique_class = Inr []"
    by (intro no_anchors_no_triplets single_label_no_anchors)
next
  assume "set labels = {c} \<and> 2 \<le> length labels"
  then obtain pos_pairs where "get_all_pairs labels = Inr (pos_pairs, [])"
    using single_label_no_neg by blast
  then show "get_all_triplets labels = Inr []" by (rule get_all_triplets_no_neg)
next
  assume "distinct labels"
  then show "get_batch_hard_triplets dist_mat labels unique_class = Inr []"
    by (intro no_anchors_no_triplets distinct_labels_no_anchors)
next
  assume h: "distinct labels \<and> 2 \<le> length labels \<and> length labels \<le> 256"
  then obtain neg_pairs where g: "get_all_pairs labels = Inr ([], neg_pairs)"
    using distinct_labels_no_pos by blast
  then show "\<exists>neg_pairs. get_all_pairs labels = Inr ([], neg_pairs)" by blast
  from g show "get_all_triplets labels = Inr []" by (rule get_all_triplets_no_pos)
qed

lemma degenerate_batches_example:
  "set [7, 7, 7 :: int] = {7} \<and> 2 \<le> length [7, 7, 7 :: int] \<and>
   get_batch_hard_triplets (\<lambda>i j. 0 :: int) [7, 7, 7] [7] = Inr [] \<and>
   get_all_triplets [7, 7, 7] = Inr [] \<and>
   distinct [1, 2, 3 :: int] \<and> 2 \<le> length [1, 2, 3 :: int] \<and> length [1, 2, 3 :: int] \<le> 256 \<and>
   get_batch_hard_triplets (\<lambda>i j. 0 :: int) [1, 2, 3] [1, 2, 3] = Inr [] \<and>
   (\<exists>neg_pairs. get_all_pairs [1, 2, 3] = Inr ([], neg_pairs)) \<and>
   get_all_triplets [1, 2, 3] = Inr []"
proof -
  have s: "set [7, 7, 7 :: int] = {7}" "2 \<le> length [7, 7, 7 :: int]" by simp_all
  have d: "distinct [1, 2, 3 :: int]" "2 \<le> length [1, 2, 3 :: int]"
    "length [1, 2, 3 :: int] \<le> 256" by simp_all
  note one = degenerate_batches [of "[7, 7, 7]" 7 "\<lambda>i j. 0 :: int" "[7]"]
  note uniq = degenerate_batches [of "[1, 2, 3]" 0 "\<lambda>i j. 0 :: int" "[1, 2, 3]"]
  from one s have o: "get_batch_hard_triplets (\<lambda>i j. 0 :: int) [7, 7, 7] [7] = Inr []"
    "get_all_triplets [7, 7, 7] = Inr []" by blast+
  from uniq d have u: "get_batch_hard_triplets (\<lambda>i j. 0 :: int) [1, 2, 3] [1, 2, 3] = Inr []"
    "\<exists>neg_pairs. get_all_pairs [1, 2, 3] = Inr ([], neg_pairs)"
    "get_all_triplets [1, 2, 3] = Inr []" by blast+
  from s d o u show ?thesis by blast
qed

lemma big_batch_self_pair:
  assumes "256 < n"
  shows "(0, 0) \<in> set (astype_uint8 (combinations2 n))"
proof -
  from assms have m: "(0, 256) \<in> set (combinations2 n)" by (simp add: set_combinations2)
  have eq: "(0 :: uint8, 0 :: uint8) = (\<lambda>(i, j). (word_of_nat i, word_of_nat j)) (0 :: nat, 256 :: nat)"
    by simp
  have "(\<lambda>(i, j). (word_of_nat i :: uint8, word_of_nat j :: uint8)) (0 :: nat, 256 :: nat)
          \<in> set (astype_uint8 (combinations2 n))"
    unfolding astype_uint8_def set_map using m by (rule imageI)
  then show ?thesis by (simp only: eq [symmetric])
qed

lemma big_batch_positive:
  assumes "256 < length labels"
  shows "\<not> isl (get_all_pairs labels) \<and> (0, 0) \<in> set (fst (projr (get_all_pairs labels)))"
proof -
  from assms have "\<not> length labels < 2" by simp
  then have g: "get_all_pairs labels =
      Inr (filter (\<lambda>(a, b). labels ! unat a = labels ! unat b)
             (astype_uint8 (combinations2 (length labels))),
           filter (\<lambda>(a, b). labels ! unat a \<noteq> labels ! unat b)
             (astype_uint8 (combinations2 (length labels))))"
    by (simp only: get_all_pairs_eq if_False)
  show ?thesis unfolding g using big_batch_self_pair [OF assms] by simp
qed

text \<open>
  C7. The claim is that a batch with one distinct label yields no triplet and a batch of
  distinct labels no positive pair, without an error. The code fails it twice: on the
  batch of one example \<^verbatim>\<open>get_all_triplets\<close> raises, where \<^verbatim>\<open>get_batch_hard_triplets\<close>
  returns no triplet; and on a batch of 257 distinct labels \<^verbatim>\<open>get_all_pairs\<close> returns the
  positive pair \<open>(0, 0)\<close>, which is \<open>(0, 256)\<close> cast to 8 bits.
\<close>

theorem degenerate_batch_failures:
  "set [5 :: int] = {5} \<and> get_all_triplets [5] = Inl IndexError \<and>
   distinct (map int [0 ..< 257]) \<and>
   \<not> isl (get_all_pairs (map int [0 ..< 257])) \<and>
   (0, 0) \<in> set (fst (projr (get_all_pairs (map int [0 ..< 257]))))"
proof -
  have a: "set [5 :: int] = {5}" by simp
  have b: "get_all_triplets [5] = Inl IndexError" by code_simp
  have c: "distinct (map int [0 ..< 257])" by (simp add: distinct_map)
  have "256 < length (map int [0 ..< 257])" by simp
  from big_batch_positive [OF this] a b c show ?thesis by blast
qed

section \<open>The gates of one training iteration\<close>

text \<open>
  A batch for which \<^verbatim>\<open>after_backward\<close> returns false: the iteration ends after that
  dispatch, and \<^verbatim>\<open>on_batch_end\<close> is not dispatched.
\<close>

theorem learn_one_iter_skips_on_batch_end:
  "learn_one_iter (example_learner True False True False) 1 2 0 =
     Inr (10, [OnBackwardBegin True, Backward 0, AfterBackward False])"
  by (simp add: learn_one_iter_def example_learner_def)

text \<open>
  The result of an iteration whose payloads keep their keys, in terms of what its calls
  return: the state after the last call made, and the trace of the actions.
\<close>

lemma learn_one_iter_run:
  assumes "cb_on_batch_begin L [(''inputs'', images), (''labels'', labels)] True w0 = (data, w1)"
    and "map_of data ''inputs'' = Some images1"
    and "map_of data ''labels'' = Some labels1"
    and "(if mixup L then mixup_transform_data L images1 labels1 w1
          else ((images1, labels1), w1)) = ((images2, labels2), w2)"
    and "compute_loss L images2 labels2 True w2 = (l, w3)"
    and "cb_after_losses L [(''loss'', l)] True w3 = (losses, w4)"
    and "map_of losses ''loss'' = Some loss"
    and "cb_on_backward_begin L w4 = (b1, w5)"
    and "cb_after_backward L (if b1 then loss_backward L loss w5 else w5) = (b2, w7)"
    and "cb_after_step L (optimizer_step L w7) = (b3, w9)"
    and "w10 = (if b3 then optimizer_zero_grad L w9 else w9)"
    and "logs = (if device_type_is_cuda L
                 then [(''loss'', Tensor (loss_cpu L loss)),
                       (''allocated_memory'', Bytes (cuda_memory_allocated L w10))]
                 else [(''loss'', Tensor loss)])"
  shows "learn_one_iter L images labels w0 =
           Inr (if b2 then cb_on_batch_end L logs w10 else w7,
                OnBackwardBegin b1 # (if b1 then [Backward loss] else []) @
                 AfterBackward b2 #
                 (if b2 then OptimizerStep # AfterStep b3 #
                             (if b3 then [ZeroGrad] else []) @ [OnBatchEnd logs]
                  else []))"
  using assms
  by (cases b1; cases b2; cases b3; cases "device_type_is_cuda L")
     (simp_all add: learn_one_iter_def Let_def)

text \<open>
  C4. Take an iteration whose payloads keep their keys, and name what its calls return:
  \<open>loss\<close> is the loss after the \<^verbatim>\<open>after_losses\<close> dispatch, \<open>b1\<close> the answer of
  \<^verbatim>\<open>on_backward_begin\<close>, \<open>b2\<close> the answer of \<^verbatim>\<open>after_backward\<close> and \<open>b3\<close> the answer of
  \<^verbatim>\<open>after_step\<close>. The iteration returns. \<^verbatim>\<open>loss.backward()\<close> is applied to the state, before
  \<^verbatim>\<open>after_backward\<close> is dispatched, iff \<open>b1\<close>; \<^verbatim>\<open>optimizer.step()\<close> is applied to the state
  \<^verbatim>\<open>after_backward\<close> left iff \<open>b2\<close>; \<^verbatim>\<open>optimizer.zero_grad()\<close> is applied to the state
  \<^verbatim>\<open>after_step\<close> left iff \<open>b2\<close> and \<open>b3\<close>; and the trace holds these actions, and no other,
  in that order.
\<close>

theorem learn_one_iter_gating:
  assumes "cb_on_batch_begin L [(''inputs'', images), (''labels'', labels)] True w0 = (data, w1)"
    and "map_of data ''inputs'' = Some images1"
    and "map_of data ''labels'' = Some labels1"
    and "(if mixup L then mixup_transform_data L images1 labels1 w1
          else ((images1, labels1), w1)) = ((images2, labels2), w2)"
    and "compute_loss L images2 labels2 True w2 = (l, w3)"
    and "cb_after_losses L [(''loss'', l)] True w3 = (losses, w4)"
    and "map_of losses ''loss'' = Some loss"
    and "cb_on_backward_begin L w4 = (b1, w5)"
    and "cb_after_backward L (if b1 then loss_backward L loss w5 else w5) = (b2, w7)"
    and "cb_after_step L (optimizer_step L w7) = (b3, w9)"
    and "w10 = (if b3 then optimizer_zero_grad L w9 else w9)"
    and "logs = (if device_type_is_cuda L
                 then [(''loss'', Tensor (loss_cpu L loss)),
                       (''allocated_memory'', Bytes (cuda_memory_allocated L w10))]
                 else [(''loss'', Tensor loss)])"
  shows "\<exists>w tr. learn_one_iter L images labels w0 = Inr (w, tr) \<and>
           w = (if b2 then cb_on_batch_end L logs
                             (if b3 then optimizer_zero_grad L
                                           (snd (cb_after_step L (optimizer_step L
                                              (snd (cb_after_backward L
                                                 (if b1 then loss_backward L loss w5 else w5))))))
                              else w9)
                else snd (cb_after_backward L (if b1 then loss_backward L loss w5 else w5))) \<and>
           tr = OnBackwardBegin b1 # (if b1 then [Backward loss] else []) @
                       AfterBackward b2 #
                       (if b2 then OptimizerStep # AfterStep b3 #
                                   (if b3 then [ZeroGrad] else []) @ [OnBatchEnd logs]
                        else []) \<and>
           ((\<exists>x. Backward x \<in> set tr) \<longleftrightarrow> b1) \<and>
           (OptimizerStep \<in> set tr \<longleftrightarrow> b2) \<and>
           (ZeroGrad \<in> set tr \<longleftrightarrow> b2 \<and> b3)"
proof -
  note run = learn_one_iter_run [OF assms]
  have s7: "snd (cb_after_backward L (if b1 then loss_backward L loss w5 else w5)) = w7"
    by (simp add: assms(9))
  have s9: "snd (cb_after_step L (optimizer_step L w7)) = w9"
    by (simp add: assms(10))
  show ?thesis
    unfolding run s7 s9 assms(11) [symmetric]
    by (cases b1; cases b2; cases b3) simp_all
qed

text \<open>
  C1 (amended). With the same names: \<^verbatim>\<open>on_batch_end\<close> is dispatched iff \<open>b2\<close>, the answer
  of \<^verbatim>\<open>after_backward\<close>, whatever \<open>b1\<close> and \<open>b3\<close> are. When \<open>b2\<close> holds the dispatch is the
  last action of the iteration and the only one of its kind, the state returned is the one
  \<^verbatim>\<open>on_batch_end\<close> returns, and its logs hold the loss under \<open>loss\<close> and, when the device is
  CUDA, the allocated memory under \<open>allocated_memory\<close>. When \<open>b2\<close> does not hold, the
  iteration returns the state \<^verbatim>\<open>after_backward\<close> left and dispatches no \<^verbatim>\<open>on_batch_end\<close>.
\<close>

theorem learn_one_iter_on_batch_end:
  assumes "cb_on_batch_begin L [(''inputs'', images), (''labels'', labels)] True w0 = (data, w1)"
    and "map_of data ''inputs'' = Some images1"
    and "map_of data ''labels'' = Some labels1"
    and "(if mixup L then mixup_transform_data L images1 labels1 w1
          else ((images1, labels1), w1)) = ((images2, labels2), w2)"
    and "compute_loss L images2 labels2 True w2 = (l, w3)"
    and "cb_after_losses L [(''loss'', l)] True w3 = (losses, w4)"
    and "map_of losses ''loss'' = Some loss"
    and "cb_on_backward_begin L w4 = (b1, w5)"
    and "cb_after_backward L (if b1 then loss_backward L loss w5 else w5) = (b2, w7)"
    and "cb_after_step L (optimizer_step L w7) = (b3, w9)"
    and "w10 = (if b3 then optimizer_zero_grad L w9 else w9)"
    and "logs = (if device_type_is_cuda L
                 then [(''loss'', Tensor (loss_cpu L loss)),
                       (''allocated_memory'', Bytes (cuda_memory_allocated L w10))]
                 else [(''loss'', Tensor loss)])"
  shows "\<exists>w tr. learn_one_iter L images labels w0 = Inr (w, tr) \<and>
           (if b2
            then w = cb_on_batch_end L logs w10 \<and>
                 (\<exists>pre. tr = pre @ [OnBatchEnd logs] \<and> (\<forall>lg. OnBatchEnd lg \<notin> set pre)) \<and>
                 map_of logs ''loss'' =
                   Some (Tensor (if device_type_is_cuda L then loss_cpu L loss else loss)) \<and>
                 map_of logs ''allocated_memory'' =
                   (if device_type_is_cuda L then Some (Bytes (cuda_memory_allocated L w10))
                    else None)
            else w = w7 \<and> (\<forall>lg. OnBatchEnd lg \<notin> set tr))"
proof (cases b2)
  case True
  let ?pre = "OnBackwardBegin b1 # (if b1 then [Backward loss] else []) @
              AfterBackward b2 # OptimizerStep # AfterStep b3 # (if b3 then [ZeroGrad] else [])"
  have run: "learn_one_iter L images labels w0 =
               Inr (cb_on_batch_end L logs w10, ?pre @ [OnBatchEnd logs])"
    using learn_one_iter_run [OF assms] True by simp
  have pre: "\<forall>lg. OnBatchEnd lg \<notin> set ?pre" by simp
  have lg: "map_of logs ''loss'' =
              Some (Tensor (if device_type_is_cuda L then loss_cpu L loss else loss))"
           "map_of logs ''allocated_memory'' =
              (if device_type_is_cuda L then Some (Bytes (cuda_memory_allocated L w10))
               else None)"
    by (simp_all add: assms(12))
  show ?thesis
    unfolding run using True pre lg by (simp only: if_True sum.inject prod.inject) blast
next
  case False
  have run: "learn_one_iter L images labels w0 =
               Inr (w7, OnBackwardBegin b1 # (if b1 then [Backward loss] else []) @
                        [AfterBackward b2])"
    using learn_one_iter_run [OF assms] False by simp
  show ?thesis
    unfolding run using False by simp
qed


theorem learn_one_iter_gating_witness:
  "learn_one_iter (example_learner True True True True) 1 2 0 =
     Inr (1111, [OnBackwardBegin True, Backward 0, AfterBackward True, OptimizerStep,
                 AfterStep True, ZeroGrad,
                 OnBatchEnd [(''loss'', Tensor 0), (''allocated_memory'', Bytes 1024)]])"
proof -
  let ?L = "(example_learner True True True True)"
  have h1: "cb_on_batch_begin ?L [(''inputs'', 1), (''labels'', 2)] True 0 =
              ([(''inputs'', 1), (''labels'', 2)], 0)"
    by (simp add: example_learner_def)
  have h2: "map_of [(''inputs'', 1 :: int), (''labels'', 2)] ''inputs'' = Some 1" by simp
  have h3: "map_of [(''inputs'', 1 :: int), (''labels'', 2)] ''labels'' = Some 2" by simp
  have h4: "(if mixup ?L then mixup_transform_data ?L 1 2 0 else ((1, 2), 0)) = ((1, 2), 0)"
    by (simp add: example_learner_def)
  have h5: "compute_loss ?L 1 2 True 0 = (0, 0)" by (simp add: example_learner_def)
  have h6: "cb_after_losses ?L [(''loss'', 0)] True 0 = ([(''loss'', 0)], 0)"
    by (simp add: example_learner_def)
  have h7: "map_of [(''loss'', 0 :: int)] ''loss'' = Some 0" by simp
  have h8: "cb_on_backward_begin ?L 0 = (True, 0)" by (simp add: example_learner_def)
  have h9: "cb_after_backward ?L (if True then loss_backward ?L 0 0 else 0) = (True, 10)"
    by (simp add: example_learner_def)
  have h10: "cb_after_step ?L (optimizer_step ?L 10) = (True, 11)"
    by (simp add: example_learner_def)
  have h11: "(111 :: nat) = (if True then optimizer_zero_grad ?L 11 else 11)"
    by (simp add: example_learner_def)
  have h12: "[(''loss'', Tensor (0 :: int)), (''allocated_memory'', Bytes 1024)] =
             (if device_type_is_cuda ?L
              then [(''loss'', Tensor (loss_cpu ?L 0)),
                    (''allocated_memory'', Bytes (cuda_memory_allocated ?L 111))]
              else [(''loss'', Tensor 0)])"
    by (simp add: example_learner_def)
  from learn_one_iter_gating [OF h1 h2 h3 h4 h5 h6 h7 h8 h9 h10 h11 h12]
  show ?thesis by (simp add: example_learner_def)
qed

theorem learn_one_iter_on_batch_end_witness:
  "\<exists>tr pre. learn_one_iter (example_learner False True False True) 1 2 0 = Inr (1001, tr) \<and>
      tr = pre @ [OnBatchEnd [(''loss'', Tensor 0), (''allocated_memory'', Bytes 1024)]] \<and>
      (\<forall>lg. OnBatchEnd lg \<notin> set pre)"
proof -
  let ?L = "(example_learner False True False True)"
  have h1: "cb_on_batch_begin ?L [(''inputs'', 1), (''labels'', 2)] True 0 =
              ([(''inputs'', 1), (''labels'', 2)], 0)"
    by (simp add: example_learner_def)
  have h2: "map_of [(''inputs'', 1 :: int), (''labels'', 2)] ''inputs'' = Some 1" by simp
  have h3: "map_of [(''inputs'', 1 :: int), (''labels'', 2)] ''labels'' = Some 2" by simp
  have h4: "(if mixup ?L then mixup_transform_data ?L 1 2 0 else ((1, 2), 0)) = ((1, 2), 0)"
    by (simp add: example_learner_def)
  have h5: "compute_loss ?L 1 2 True 0 = (0, 0)" by (simp add: example_learner_def)
  have h6: "cb_after_losses ?L [(''loss'', 0)] True 0 = ([(''loss'', 0)], 0)"
    by (simp add: example_learner_def)
  have h7: "map_of [(''loss'', 0 :: int)] ''loss'' = Some 0" by simp
  have h8: "cb_on_backward_begin ?L 0 = (False, 0)" by (simp add: example_learner_def)
  have h9: "cb_after_backward ?L (if False then loss_backward ?L 0 0 else 0) = (True, 0)"
    by (simp add: example_learner_def)
  have h10: "cb_after_step ?L (optimizer_step ?L 0) = (False, 1)"
    by (simp add: example_learner_def)
  have h11: "(1 :: nat) = (if False then optimizer_zero_grad ?L 1 else 1)"
    by (simp add: example_learner_def)
  have h12: "[(''loss'', Tensor (0 :: int)), (''allocated_memory'', Bytes 1024)] =
             (if device_type_is_cuda ?L
              then [(''loss'', Tensor (loss_cpu ?L 0)),
                    (''allocated_memory'', Bytes (cuda_memory_allocated ?L 1))]
              else [(''loss'', Tensor 0)])"
    by (simp add: example_learner_def)
  from learn_one_iter_on_batch_end [OF h1 h2 h3 h4 h5 h6 h7 h8 h9 h10 h11 h12]
  show ?thesis by (simp add: example_learner_def)
qed

section \<open>The precondition of the regularizers\<close>

lemma fold_add_sum_list:
  "fold (\<lambda>p reg. reg + f p) ps (a :: real) = a + (\<Sum>p\<leftarrow>ps. f p)"
  by (induction ps arbitrary: a) simp_all

lemma weight_reg_sum_list:
  "weight_reg self parameters = (\<Sum>p\<leftarrow>parameters. wr_regularizer self p)"
  by (simp add: weight_reg_def fold_add_sum_list)

text \<open>
  C8. The \<^verbatim>\<open>after_losses\<close> hook of \<^verbatim>\<open>WeightRegularization\<close>, and that of
  \<^verbatim>\<open>ActivationRegularization\<close>, fails with the assertion iff the configured loss name is
  not a key of the losses. When the key is there, the hook returns the losses with that
  entry increased by \<open>lambd\<close> times the regularization term, every other key as it was and
  no key added or removed. The term of \<^verbatim>\<open>WeightRegularization\<close> is the sum of the regularizer
  over the parameters of the model; the term of \<^verbatim>\<open>ActivationRegularization\<close> is the
  regularizer of what the hook stored.
\<close>

theorem after_losses_precondition:
  "(WeightRegularization_after_losses wr parameters losses train = Inl AssertionError
      \<longleftrightarrow> wr_loss_name wr \<notin> dom losses) \<and>
   (\<forall>v. losses (wr_loss_name wr) = Some v \<longrightarrow>
      (\<exists>losses'. WeightRegularization_after_losses wr parameters losses train = Inr losses' \<and>
         losses' (wr_loss_name wr) = Some (v + wr_lambd wr * (\<Sum>p\<leftarrow>parameters. wr_regularizer wr p)) \<and>
         (\<forall>k. k \<noteq> wr_loss_name wr \<longrightarrow> losses' k = losses k) \<and>
         dom losses' = dom losses)) \<and>
   (ActivationRegularization_after_losses ar losses train = Inl AssertionError
      \<longleftrightarrow> ar_loss_name ar \<notin> dom losses) \<and>
   (\<forall>v. losses (ar_loss_name ar) = Some v \<longrightarrow>
      (\<exists>losses' ar'. ActivationRegularization_after_losses ar losses train = Inr (losses', ar') \<and>
         losses' (ar_loss_name ar) = Some (v + ar_regularizer ar (hook_store ar) * ar_lambd ar) \<and>
         (\<forall>k. k \<noteq> ar_loss_name ar \<longrightarrow> losses' k = losses k) \<and>
         dom losses' = dom losses))"
proof (intro conjI allI impI)
  show "WeightRegularization_after_losses wr parameters losses train = Inl AssertionError
      \<longleftrightarrow> wr_loss_name wr \<notin> dom losses"
    by (auto simp: WeightRegularization_after_losses_def split: option.splits)
  show "ActivationRegularization_after_losses ar losses train = Inl AssertionError
      \<longleftrightarrow> ar_loss_name ar \<notin> dom losses"
    by (auto simp: ActivationRegularization_after_losses_def split: option.splits)
next
  fix v assume v: "losses (wr_loss_name wr) = Some v"
  let ?l = "losses(wr_loss_name wr \<mapsto> v + wr_lambd wr * (\<Sum>p\<leftarrow>parameters. wr_regularizer wr p))"
  have r: "WeightRegularization_after_losses wr parameters losses train = Inr ?l"
    using v by (simp add: WeightRegularization_after_losses_def weight_reg_sum_list)
  have d: "dom ?l = dom losses" using v by auto
  show "\<exists>losses'. WeightRegularization_after_losses wr parameters losses train = Inr losses' \<and>
         losses' (wr_loss_name wr) = Some (v + wr_lambd wr * (\<Sum>p\<leftarrow>parameters. wr_regularizer wr p)) \<and>
         (\<forall>k. k \<noteq> wr_loss_name wr \<longrightarrow> losses' k = losses k) \<and>
         dom losses' = dom losses"
    using r d by simp
next
  fix v assume v: "losses (ar_loss_name ar) = Some v"
  let ?l = "losses(ar_loss_name ar \<mapsto> v + ar_regularizer ar (hook_store ar) * ar_lambd ar)"
  have r: "ActivationRegularization_after_losses ar losses train = Inr (?l, ar\<lparr>hook_store := None\<rparr>)"
    using v by (simp add: ActivationRegularization_after_losses_def)
  have d: "dom ?l = dom losses" using v by auto
  show "\<exists>losses' ar'. ActivationRegularization_after_losses ar losses train = Inr (losses', ar') \<and>
         losses' (ar_loss_name ar) = Some (v + ar_regularizer ar (hook_store ar) * ar_lambd ar) \<and>
         (\<forall>k. k \<noteq> ar_loss_name ar \<longrightarrow> losses' k = losses k) \<and>
         dom losses' = dom losses"
    using r d by simp
qed

theorem after_losses_precondition_witness:
  "[''loss'' \<mapsto> 3 :: real] ''loss'' = Some 3 \<and>
   (\<exists>losses'.
      WeightRegularization_after_losses
        \<lparr>wr_loss_name = ''loss'', wr_regularizer = (\<lambda>p :: real. p * p), wr_lambd = 2\<rparr>
        [1, 3] [''loss'' \<mapsto> 3] True = Inr losses' \<and>
      losses' ''loss'' = Some 23) \<and>
   WeightRegularization_after_losses
     \<lparr>wr_loss_name = ''penalty'', wr_regularizer = (\<lambda>p :: real. p * p), wr_lambd = 2\<rparr>
     [1, 3] [''loss'' \<mapsto> 3] True = Inl AssertionError"
proof -
  let ?wr = "\<lparr>wr_loss_name = ''loss'', wr_regularizer = (\<lambda>p :: real. p * p), wr_lambd = 2\<rparr>"
  let ?wp = "\<lparr>wr_loss_name = ''penalty'', wr_regularizer = (\<lambda>p :: real. p * p), wr_lambd = 2\<rparr>"
  let ?ar = "\<lparr>hook_store = None :: real option, ar_loss_name = ''loss'',
              ar_regularizer = (\<lambda>s. 0), ar_lambd = 1\<rparr>"
  have h: "[''loss'' \<mapsto> 3 :: real] (wr_loss_name ?wr) = Some 3" by simp
  have w: "(\<Sum>p\<leftarrow>[1, 3]. wr_regularizer ?wr p) = 10" by simp
  note t = after_losses_precondition [of ?wr "[1, 3]" "[''loss'' \<mapsto> 3]" True ?ar]
  from t h have "\<exists>losses'.
      WeightRegularization_after_losses ?wr [1, 3] [''loss'' \<mapsto> 3] True = Inr losses' \<and>
      losses' (wr_loss_name ?wr) =
        Some (3 + wr_lambd ?wr * (\<Sum>p\<leftarrow>[1, 3]. wr_regularizer ?wr p))"
    by blast
  then have a: "\<exists>losses'.
      WeightRegularization_after_losses ?wr [1, 3] [''loss'' \<mapsto> 3] True = Inr losses' \<and>
      losses' ''loss'' = Some 23"
    by (simp add: w)
  have absent: "wr_loss_name ?wp \<notin> dom [''loss'' \<mapsto> 3 :: real]" by simp
  note u = after_losses_precondition [of ?wp "[1, 3]" "[''loss'' \<mapsto> 3]" True ?ar]
  from u absent have b: "WeightRegularization_after_losses ?wp [1, 3] [''loss'' \<mapsto> 3] True
                   = Inl AssertionError" by blast
  from a b show ?thesis by simp
qed

section \<open>The recurrence of stochastic weight averaging\<close>

lemma average_params_Cons:
  "average_params n ((name1, param1) # w1) d =
     average_params n w1
       (case d name1 of
          None \<Rightarrow> d
        | Some param2 \<Rightarrow>
            d(name1 \<mapsto> (param1 + real_of_int n * param2) / real_of_int (n + 1)))"
  by (simp add: average_params_def)

lemma average_params_Nil: "average_params n [] d = d"
  by (simp add: average_params_def)

lemma average_params_apply:
  "distinct (map fst w1) \<Longrightarrow>
   average_params n w1 d name =
     (case d name of
        None \<Rightarrow> None
      | Some avg \<Rightarrow>
          (case map_of w1 name of
             None \<Rightarrow> Some avg
           | Some cur \<Rightarrow> Some ((cur + real_of_int n * avg) / real_of_int (n + 1))))"
proof (induction w1 arbitrary: d)
  case Nil
  show ?case by (simp add: average_params_Nil split: option.splits)
next
  case (Cons kv w1)
  obtain k v where kv: "kv = (k, v)" by (cases kv)
  from Cons.prems have dist: "distinct (map fst w1)" and notin: "k \<notin> fst ` set w1"
    by (simp_all add: kv)
  from notin have none: "map_of w1 k = None" by (simp add: map_of_eq_None_iff)
  show ?case
  proof (cases "d k")
    case None
    then show ?thesis
      unfolding kv average_params_Cons using Cons.IH [OF dist, of d] none
      by (auto split: option.splits)
  next
    case (Some p2)
    then show ?thesis
      unfolding kv average_params_Cons using Cons.IH [OF dist] none
      by (auto split: option.splits)
  qed
qed


lemma average_params_running_mean:
  "distinct (map fst w1) \<Longrightarrow> average_params n w1 d = running_mean n w1 d"
  by (rule ext) (rule average_params_apply)

lemma load_state_dict_no_buffers: "load_state_dict [] d = Inr d"
  by (simp add: load_state_dict_def)

lemma swa_update_positive:
  assumes "distinct (map fst model)" and "0 < update_every self" and "logs key = Some counter"
    and "buffers_swa self = []"
  shows "swa_update self model logs key =
           Inr (if average_after self \<le> counter \<and> counter mod update_every self = 0
                then self\<lparr>model_swa :=
                       running_mean ((counter - average_after self) div update_every self)
                         model (model_swa self)\<rparr>
                else self)"
  using assms(2,3)
  by (simp add: swa_update_def Let_def average_params_running_mean [OF assms(1)] assms(4)
      load_state_dict_no_buffers)

text \<open>
  For an averaged model without buffers the hooks compute the running mean: only the hook
  of the configured timescale changes the averaged model, only when the counter is at
  least \<open>average_after\<close> and divisible by the positive \<open>update_every\<close>, and then every
  shared parameter becomes \<open>(current + n_model * averaged) / (n_model + 1)\<close> with
  \<open>n_model = (counter - average_after) div update_every\<close>.
\<close>

lemma swa_running_mean:
  "(timescale self \<noteq> ''epoch'' \<longrightarrow> on_epoch_end self model logs = Inr (False, self)) \<and>
   (timescale self \<noteq> ''iter'' \<longrightarrow> on_batch_end self model logs = Inr self) \<and>
   (timescale self = ''epoch'' \<and> logs ''epoch'' = Some counter \<and>
    0 < update_every self \<and> distinct (map fst model) \<and> buffers_swa self = [] \<longrightarrow>
      on_epoch_end self model logs =
        Inr (False,
             if average_after self \<le> counter \<and> counter mod update_every self = 0
             then self\<lparr>model_swa :=
                    running_mean ((counter - average_after self) div update_every self)
                      model (model_swa self)\<rparr>
             else self)) \<and>
   (timescale self = ''iter'' \<and> logs ''iter_cnt'' = Some counter \<and>
    0 < update_every self \<and> distinct (map fst model) \<and> buffers_swa self = [] \<longrightarrow>
      on_batch_end self model logs =
        Inr (if average_after self \<le> counter \<and> counter mod update_every self = 0
             then self\<lparr>model_swa :=
                    running_mean ((counter - average_after self) div update_every self)
                      model (model_swa self)\<rparr>
             else self))"
proof (intro conjI impI)
  assume "timescale self \<noteq> ''epoch''"
  then show "on_epoch_end self model logs = Inr (False, self)"
    by (simp add: on_epoch_end_def)
next
  assume "timescale self \<noteq> ''iter''"
  then show "on_batch_end self model logs = Inr self"
    by (simp add: on_batch_end_def)
next
  assume h: "timescale self = ''epoch'' \<and> logs ''epoch'' = Some counter \<and>
             0 < update_every self \<and> distinct (map fst model) \<and> buffers_swa self = []"
  then have u: "swa_update self model logs ''epoch'' =
           Inr (if average_after self \<le> counter \<and> counter mod update_every self = 0
                then self\<lparr>model_swa :=
                       running_mean ((counter - average_after self) div update_every self)
                         model (model_swa self)\<rparr>
                else self)"
    by (intro swa_update_positive) simp_all
  from h have t: "timescale self = ''epoch''" by simp
  show "on_epoch_end self model logs =
        Inr (False,
             if average_after self \<le> counter \<and> counter mod update_every self = 0
             then self\<lparr>model_swa :=
                    running_mean ((counter - average_after self) div update_every self)
                      model (model_swa self)\<rparr>
             else self)"
    unfolding on_epoch_end_def u using t by (simp only: refl simp_thms if_True sum.case)
next
  assume h: "timescale self = ''iter'' \<and> logs ''iter_cnt'' = Some counter \<and>
             0 < update_every self \<and> distinct (map fst model) \<and> buffers_swa self = []"
  then have u: "swa_update self model logs ''iter_cnt'' =
           Inr (if average_after self \<le> counter \<and> counter mod update_every self = 0
                then self\<lparr>model_swa :=
                       running_mean ((counter - average_after self) div update_every self)
                         model (model_swa self)\<rparr>
                else self)"
    by (intro swa_update_positive) simp_all
  from h have t: "timescale self = ''iter''" by simp
  show "on_batch_end self model logs =
        Inr (if average_after self \<le> counter \<and> counter mod update_every self = 0
             then self\<lparr>model_swa :=
                    running_mean ((counter - average_after self) div update_every self)
                      model (model_swa self)\<rparr>
             else self)"
    unfolding on_batch_end_def u using t by (simp only: refl simp_thms if_True)
qed

lemma swa_running_mean_example:
  "\<exists>self'. on_epoch_end
       \<lparr>model_swa = [''w'' \<mapsto> 2], buffers_swa = [], update_every = 2, average_after = 4,
          timescale = ''epoch''\<rparr>
       [(''w'', 5)] [''epoch'' \<mapsto> 8] = Inr (False, self') \<and>
     model_swa self' ''w'' = Some 3"
proof -
  let ?e = "\<lparr>model_swa = [''w'' \<mapsto> 2 :: real], buffers_swa = [], update_every = 2,
               average_after = 4, timescale = ''epoch''\<rparr>"
  let ?m = "[(''w'', 5 :: real)]"
  have he: "timescale ?e = ''epoch'' \<and> [''epoch'' \<mapsto> 8 :: int] ''epoch'' = Some 8 \<and>
            0 < update_every ?e \<and> distinct (map fst ?m) \<and> buffers_swa ?e = []" by simp
  from swa_running_mean [of ?e ?m "[''epoch'' \<mapsto> 8]" 8] he
  have "on_epoch_end ?e ?m [''epoch'' \<mapsto> 8] =
        Inr (False,
             if average_after ?e \<le> 8 \<and> 8 mod update_every ?e = 0
             then ?e\<lparr>model_swa := running_mean ((8 - average_after ?e) div update_every ?e)
                                     ?m (model_swa ?e)\<rparr>
             else ?e)"
    by blast
  then show ?thesis by simp
qed

text \<open>
  An averaged model with a buffer its parameters do not name: when the update is due, the
  strict \<^verbatim>\<open>load_state_dict\<close> misses the buffer and the hook raises.
\<close>

lemma swa_update_missing_buffer:
  assumes "distinct (map fst model)" and "0 < update_every self" and "logs key = Some counter"
    and "average_after self \<le> counter" and "counter mod update_every self = 0"
    and "k \<in> set (buffers_swa self)" and "model_swa self k = None"
  shows "swa_update self model logs key = Inl RuntimeError"
proof -
  let ?d = "average_params ((counter - average_after self) div update_every self) model
              (model_swa self)"
  have "?d k = None"
    using assms(7) by (simp add: average_params_apply [OF assms(1)])
  with assms(6) have "load_state_dict (buffers_swa self) ?d = Inl RuntimeError"
    by (auto simp: load_state_dict_def)
  with assms(2-5) show ?thesis by (simp add: swa_update_def Let_def)
qed

text \<open>
  C9. The claim is that every due update replaces the shared averaged parameters by the
  running mean. For a model with a batch normalisation layer the code does not complete
  the update: with the parameter \<open>conv.weight\<close>, the buffer \<open>bn.running_mean\<close>, an
  update due at every iteration from the first, the hook of either timescale raises when
  it loads the dictionary of the parameters into the averaged model.
\<close>

theorem swa_load_state_dict_fails:
  "on_batch_end
     \<lparr>model_swa = [''conv.weight'' \<mapsto> 2], buffers_swa = [''bn.running_mean''],
        update_every = 1, average_after = 0, timescale = ''iter''\<rparr>
     [(''conv.weight'', 5)] [''iter_cnt'' \<mapsto> 0] = Inl RuntimeError \<and>
   on_epoch_end
     \<lparr>model_swa = [''conv.weight'' \<mapsto> 2], buffers_swa = [''bn.running_mean''],
        update_every = 1, average_after = 0, timescale = ''epoch''\<rparr>
     [(''conv.weight'', 5)] [''epoch'' \<mapsto> 0] = Inl RuntimeError"
proof -
  let ?i = "\<lparr>model_swa = [''conv.weight'' \<mapsto> 2 :: real], buffers_swa = [''bn.running_mean''],
               update_every = 1, average_after = 0, timescale = ''iter''\<rparr>"
  let ?e = "\<lparr>model_swa = [''conv.weight'' \<mapsto> 2 :: real], buffers_swa = [''bn.running_mean''],
               update_every = 1, average_after = 0, timescale = ''epoch''\<rparr>"
  have i: "swa_update ?i [(''conv.weight'', 5)] [''iter_cnt'' \<mapsto> 0] ''iter_cnt'' = Inl RuntimeError"
    by (rule swa_update_missing_buffer [where counter = 0 and k = "''bn.running_mean''"]) simp_all
  have e: "swa_update ?e [(''conv.weight'', 5)] [''epoch'' \<mapsto> 0] ''epoch'' = Inl RuntimeError"
    by (rule swa_update_missing_buffer [where counter = 0 and k = "''bn.running_mean''"]) simp_all
  show ?thesis by (simp add: on_batch_end_def on_epoch_end_def i e)
qed

section \<open>The order of the selected pairs\<close>

lemma index_select_same_device:
  assumes "\<forall>i \<in> set idx. i < length (rows t)"
  shows "index_select t (to_device (torch_tensor idx) (device t)) =
           Inr \<lparr>rows = map (\<lambda>i. rows t ! i) idx, device = device t\<rparr>"
  using assms by (auto simp: index_select_def to_device_def torch_tensor_def not_le)

lemma index_select_cpu_index_on_cuda:
  "device t = CUDA \<Longrightarrow> index_select t (torch_tensor idx) = Inl RuntimeError"
  by (simp add: index_select_def torch_tensor_def)

text \<open>On the CPU every index tensor is where the embeddings are, and the order is as claimed.\<close>

lemma PairSelector_select_cpu:
  assumes "device embeddings = CPU"
    and "get_pairs embeddings labels = Inr (pos_pairs, neg_pairs)"
    and "\<forall>(a, b) \<in> set pos_pairs \<union> set neg_pairs.
           a < length (rows embeddings) \<and> b < length (rows embeddings)"
  shows "PairSelector_select get_pairs embeddings labels =
           Inr ((\<lparr>rows = map (\<lambda>(a, b). rows embeddings ! a) pos_pairs @
                         map (\<lambda>(a, b). rows embeddings ! a) neg_pairs, device = CPU\<rparr>,
                 \<lparr>rows = map (\<lambda>(a, b). rows embeddings ! b) pos_pairs @
                         map (\<lambda>(a, b). rows embeddings ! b) neg_pairs, device = CPU\<rparr>),
                \<lparr>rows = replicate (length pos_pairs) 1 @ replicate (length neg_pairs) 0,
                  device = CPU\<rparr>)"
proof -
  have r: "\<forall>i \<in> set (map fst pos_pairs). i < length (rows embeddings)"
          "\<forall>i \<in> set (map snd pos_pairs). i < length (rows embeddings)"
          "\<forall>i \<in> set (map fst neg_pairs). i < length (rows embeddings)"
          "\<forall>i \<in> set (map snd neg_pairs). i < length (rows embeddings)"
    using assms(3) by auto
  have cpu: "torch_tensor idx = to_device (torch_tensor idx) (device embeddings)" for idx :: "nat list"
    by (simp add: assms(1) to_device_def torch_tensor_def)
  have m: "map (\<lambda>i. rows embeddings ! i) (map fst ps) = map (\<lambda>(a, b). rows embeddings ! a) ps"
          "map (\<lambda>i. rows embeddings ! i) (map snd ps) = map (\<lambda>(a, b). rows embeddings ! b) ps"
    for ps :: "(nat \<times> nat) list"
    by (simp_all add: case_prod_unfold)
  have s1: "index_select embeddings (to_device (torch_tensor (map fst pos_pairs)) (device embeddings))
              = Inr \<lparr>rows = map (\<lambda>(a, b). rows embeddings ! a) pos_pairs, device = CPU\<rparr>"
    using index_select_same_device [OF r(1)] by (simp only: m assms(1))
  have s2: "index_select embeddings (torch_tensor (map fst neg_pairs))
              = Inr \<lparr>rows = map (\<lambda>(a, b). rows embeddings ! a) neg_pairs, device = CPU\<rparr>"
    using index_select_same_device [OF r(3), folded cpu] by (simp only: m assms(1))
  have s3: "index_select embeddings (to_device (torch_tensor (map snd pos_pairs)) (device embeddings))
              = Inr \<lparr>rows = map (\<lambda>(a, b). rows embeddings ! b) pos_pairs, device = CPU\<rparr>"
    using index_select_same_device [OF r(2)] by (simp only: m assms(1))
  have s4: "index_select embeddings (to_device (torch_tensor (map snd neg_pairs)) (device embeddings))
              = Inr \<lparr>rows = map (\<lambda>(a, b). rows embeddings ! b) neg_pairs, device = CPU\<rparr>"
    using index_select_same_device [OF r(4)] by (simp only: m assms(1))
  show ?thesis
    unfolding PairSelector_select_def assms(2) prod.case sum.case s1 s2 s3 s4
    by (simp add: torch_cat_def to_device_def torch_tensor_def assms(1))
qed

text \<open>On a CUDA device the second gather is given an index that stayed on the CPU.\<close>

lemma PairSelector_select_cuda:
  assumes "device embeddings = CUDA"
    and "get_pairs embeddings labels = Inr (pos_pairs, neg_pairs)"
    and "\<forall>(a, b) \<in> set pos_pairs. a < length (rows embeddings)"
  shows "PairSelector_select get_pairs embeddings labels = Inl RuntimeError"
proof -
  have r: "\<forall>i \<in> set (map fst pos_pairs). i < length (rows embeddings)"
    using assms(3) by auto
  show ?thesis
    unfolding PairSelector_select_def assms(2)
    by (simp add: index_select_same_device [OF r]
        index_select_cpu_index_on_cuda [OF assms(1)])
qed

text \<open>
  C6. The claim is that \<^verbatim>\<open>PairSelector.select\<close> returns the gathered pairs, positives first
  and negatives second, with the similarity labels 1 and 0 in that order. On embeddings held
  by a CUDA device the code returns nothing: for the three examples below with the labels
  \<open>[0, 0, 1]\<close>, the gather of the first components of the negative pairs is given an index
  that stayed on the CPU and raises.
\<close>

theorem PairSelector_select_cuda_fails:
  "PairSelector_select AllPairSelector_get_pairs
     \<lparr>rows = [[0], [1], [5 :: real]], device = CUDA\<rparr> [0, 0, 1] = Inl RuntimeError"
proof -
  have g: "get_all_pairs [0, 0, 1] = Inr ([(0, 1)], [(0, 2), (1, 2)])" by code_simp
  show ?thesis
    by (simp add: PairSelector_select_def AllPairSelector_get_pairs_def g long_pairs_def
        index_select_def to_device_def torch_tensor_def torch_cat_def)
qed

text \<open>The same batch on the CPU, in the claimed order.\<close>

lemma PairSelector_select_cpu_example:
  "PairSelector_select AllPairSelector_get_pairs
     \<lparr>rows = [[0], [1], [5 :: real]], device = CPU\<rparr> [0, 0, 1] =
   Inr ((\<lparr>rows = [[0], [0], [1]], device = CPU\<rparr>, \<lparr>rows = [[1], [5], [5]], device = CPU\<rparr>),
        \<lparr>rows = [1, 0, 0], device = CPU\<rparr>)"
proof -
  have g: "get_all_pairs [0, 0, 1] = Inr ([(0, 1)], [(0, 2), (1, 2)])" by code_simp
  show ?thesis
    by (simp add: PairSelector_select_def AllPairSelector_get_pairs_def g long_pairs_def
        index_select_def to_device_def torch_tensor_def torch_cat_def)
qed

end
